theory Spec2Isabelle
  imports Main "HOL-Library.Sublist" "HOL-Library.AList"
begin

section \<open>The emitted JSONP chunk-loading runtime\<close>

text \<open>
  The runtime printed in \<^verbatim>\<open>examples/code-splitting-bundle-loader/README.md\<close>
  (block \<^verbatim>\<open>webpack/runtime/jsonp chunk loading\<close>). Its private variable
  \<^verbatim>\<open>installedChunks\<close> maps a chunk id to \<^verbatim>\<open>undefined\<close> (not loaded; here: no
  entry), to the array \<^verbatim>\<open>[resolve, reject, promise]\<close> of one promise (loading) or to
  \<^verbatim>\<open>0\<close> (loaded). The placeholder \<^verbatim>\<open>null\<close> of the comment is never written by
  this runtime, which was emitted without prefetching or preloading.

  Promises live in a store and are named by their index; \<^verbatim>\<open>resolve\<close> and
  \<^verbatim>\<open>reject\<close> of a promise settle it once and are ignored afterwards. A script
  element keeps its \<^verbatim>\<open>src\<close>, whether \<^verbatim>\<open>onerror\<close>/\<^verbatim>\<open>onload\<close> are still set to
  \<^verbatim>\<open>onScriptComplete\<close>, the delay of its pending \<^verbatim>\<open>setTimeout\<close> (none once it is
  cleared) and the chunk id its closures captured. Calls of functions that come from
  outside the runtime are recorded in order in \<open>calls\<close>.
\<close>

record chunk_error =
  message :: string
  etype :: string
  request :: string

datatype promise_state = Pending | Fulfilled | Rejected chunk_error

datatype chunk_entry = Loading nat | Installed

record script =
  src :: string
  handlers :: bool
  timer :: "nat option"
  chunk :: nat

type_synonym factory = string

record module_map =
  own :: "(nat \<times> factory) list"
  inherited :: "(nat \<times> factory) list"

text \<open>
  The array handed to \<^verbatim>\<open>webpackJsonp.push\<close>: index 0 holds the chunk ids, index 1
  the module map; indices 2 and 3 hold a function or nothing.
\<close>

record jsonp_data =
  d0 :: "nat list"
  d1 :: module_map
  d2 :: "nat option"
  d3 :: "nat option"

datatype call = CallRuntime nat | CallParent jsonp_data | CallResolve nat

record runtime =
  installedChunks :: "nat \<rightharpoonup> chunk_entry"
  modules :: "nat \<rightharpoonup> factory"
  promise_store :: "promise_state list"
  scripts :: "script list"
  calls :: "call list"

subsection \<open>Numbers in strings\<close>

definition digit :: "nat \<Rightarrow> char" where
  "digit d = ''0123456789'' ! d"

function string_of_nat :: "nat \<Rightarrow> string" where
  "string_of_nat n =
     (if n < 10 then [digit n] else string_of_nat (n div 10) @ [digit (n mod 10)])"
  by pat_completeness auto
termination
  by (relation "measure id") auto

declare string_of_nat.simps [simp del]

subsection \<open>Public path and chunk file name\<close>

definition publicPath :: string where
  "publicPath = ''dist/''"

definition chunk_filename :: "nat \<Rightarrow> string" where
  "chunk_filename chunkId = '''' @ string_of_nat chunkId @ ''.output.js''"

subsection \<open>Settling a promise\<close>

definition resolve :: "nat \<Rightarrow> runtime \<Rightarrow> runtime" where
  "resolve p s =
     (if p < length (promise_store s) \<and> promise_store s ! p = Pending
      then s\<lparr>promise_store := (promise_store s)[p := Fulfilled]\<rparr> else s)"

definition reject :: "nat \<Rightarrow> chunk_error \<Rightarrow> runtime \<Rightarrow> runtime" where
  "reject p e s =
     (if p < length (promise_store s) \<and> promise_store s ! p = Pending
      then s\<lparr>promise_store := (promise_store s)[p := Rejected e]\<rparr> else s)"

subsection \<open>Requesting a chunk\<close>

text \<open>
  \<^verbatim>\<open>__webpack_require__.f.j = function(chunkId, promises)\<close>: returns the caller's
  \<^verbatim>\<open>promises\<close> array after the call, and the new state. The timer is the
  \<^verbatim>\<open>setTimeout(..., 120000)\<close> of the source.
\<close>

definition f_j :: "nat \<Rightarrow> nat list \<Rightarrow> runtime \<Rightarrow> nat list \<times> runtime" where
  "f_j chunkId promises s =
     (case installedChunks s chunkId of
        Some Installed \<Rightarrow> (promises, s)
      | Some (Loading p) \<Rightarrow> (promises @ [p], s)
      | None \<Rightarrow>
          (let p = length (promise_store s);
               url = publicPath @ chunk_filename chunkId;
               sc = \<lparr>src = url, handlers = True, timer = Some 120000, chunk = chunkId\<rparr>
           in (promises @ [p],
               s\<lparr>installedChunks := (installedChunks s)(chunkId \<mapsto> Loading p),
                 promise_store := promise_store s @ [Pending],
                 scripts := scripts s @ [sc]\<rparr>)))"

text \<open>
  \<^verbatim>\<open>loadingEnded\<close>: the first \<^verbatim>\<open>if\<close> returns the \<^verbatim>\<open>reject\<close> function of a
  loading entry; only when the entry is neither loading nor \<^verbatim>\<open>0\<close> does the second
  statement store \<^verbatim>\<open>undefined\<close>.
\<close>

definition loadingEnded :: "nat \<Rightarrow> runtime \<Rightarrow> nat option \<times> runtime" where
  "loadingEnded chunkId s =
     (case installedChunks s chunkId of
        Some (Loading p) \<Rightarrow> (Some p, s)
      | Some Installed \<Rightarrow> (None, s)
      | None \<Rightarrow> (None, s\<lparr>installedChunks := (installedChunks s)(chunkId := None)\<rparr>))"

text \<open>
  \<^verbatim>\<open>onScriptComplete(event)\<close> for the script at index \<open>sid\<close> and an event of type
  \<open>ty\<close> whose target is that script.
\<close>

definition onScriptComplete :: "nat \<Rightarrow> string \<Rightarrow> runtime \<Rightarrow> runtime" where
  "onScriptComplete sid ty s =
     (let sc = scripts s ! sid;
          chunkId = chunk sc;
          s1 = s\<lparr>scripts := (scripts s)[sid := sc\<lparr>handlers := False, timer := None\<rparr>]\<rparr>;
          (reportError, s2) = loadingEnded chunkId s1
      in case reportError of
           None \<Rightarrow> s2
         | Some p \<Rightarrow>
             (let errorType = (if ty = ''load'' then ''missing'' else ty);
                  realSrc = src sc;
                  error = \<lparr>message = ''Loading chunk '' @ string_of_nat chunkId
                             @ '' failed.'' @ [CHR ''\<newline>''] @ ''('' @ errorType @ '': ''
                             @ realSrc @ '')'',
                           etype = errorType, request = realSrc\<rparr>
              in reject p error s2))"

text \<open>What the host does: a script's load or error event, and its timer running out.\<close>

definition script_event :: "nat \<Rightarrow> string \<Rightarrow> runtime \<Rightarrow> runtime" where
  "script_event sid ty s =
     (if sid < length (scripts s) \<and> handlers (scripts s ! sid)
      then onScriptComplete sid ty s else s)"

definition timer_fires :: "nat \<Rightarrow> runtime \<Rightarrow> runtime" where
  "timer_fires sid s =
     (if sid < length (scripts s) \<and> timer (scripts s ! sid) \<noteq> None
      then onScriptComplete sid ''timeout'' s else s)"

subsection \<open>The registration callback\<close>

text \<open>The first loop of \<^verbatim>\<open>webpackJsonpCallback\<close>, over \<^verbatim>\<open>chunkIds\<close>.\<close>

fun flag_chunks ::
  "nat list \<Rightarrow> nat list \<Rightarrow> (nat \<rightharpoonup> chunk_entry) \<Rightarrow> nat list \<times> (nat \<rightharpoonup> chunk_entry)" where
  "flag_chunks [] resolves ic = (resolves, ic)"
| "flag_chunks (chunkId # rest) resolves ic =
     flag_chunks rest
       (case ic chunkId of Some (Loading p) \<Rightarrow> resolves @ [p] | _ \<Rightarrow> resolves)
       (ic(chunkId \<mapsto> Installed))"

text \<open>
  \<^verbatim>\<open>for(moduleId in moreModules)\<close> visits the own keys and then the inherited ones
  that no own key hides; \<^verbatim>\<open>moreModules[moduleId]\<close> reads the own value first.
\<close>

definition for_in_keys :: "module_map \<Rightarrow> nat list" where
  "for_in_keys mm =
     map fst (own mm) @ filter (\<lambda>k. k \<notin> set (map fst (own mm))) (map fst (inherited mm))"

definition hasOwnProperty :: "module_map \<Rightarrow> nat \<Rightarrow> bool" where
  "hasOwnProperty mm k = (k \<in> set (map fst (own mm)))"

definition get_property :: "module_map \<Rightarrow> nat \<Rightarrow> factory option" where
  "get_property mm k =
     (case map_of (own mm) k of Some f \<Rightarrow> Some f | None \<Rightarrow> map_of (inherited mm) k)"

fun add_modules :: "nat list \<Rightarrow> module_map \<Rightarrow> (nat \<rightharpoonup> factory) \<Rightarrow> (nat \<rightharpoonup> factory)" where
  "add_modules [] mm m = m"
| "add_modules (moduleId # rest) mm m =
     add_modules rest mm
       (if hasOwnProperty mm moduleId then m(moduleId := get_property mm moduleId) else m)"

text \<open>\<^verbatim>\<open>while(resolves.length) resolves.shift()();\<close>\<close>

fun drain :: "nat list \<Rightarrow> runtime \<Rightarrow> runtime" where
  "drain [] s = s"
| "drain (p # rest) s = drain rest (resolve p (s\<lparr>calls := calls s @ [CallResolve p]\<rparr>))"

text \<open>
  \<^verbatim>\<open>webpackJsonpCallback(data)\<close>. The injector is read from \<^verbatim>\<open>data[3]\<close>;
  \<^verbatim>\<open>parentJsonpFunction\<close> is the bound \<^verbatim>\<open>push\<close> of the array found at start-up and
  is always present.
\<close>

definition webpackJsonpCallback :: "jsonp_data \<Rightarrow> runtime \<Rightarrow> runtime" where
  "webpackJsonpCallback data s =
     (let chunkIds = d0 data;
          moreModules = d1 data;
          runtime = d3 data;
          (resolves, ic) = flag_chunks chunkIds [] (installedChunks s);
          s1 = s\<lparr>installedChunks := ic\<rparr>;
          s2 = s1\<lparr>modules := add_modules (for_in_keys moreModules) moreModules (modules s1)\<rparr>;
          s3 = (case runtime of
                  Some f \<Rightarrow> s2\<lparr>calls := calls s2 @ [CallRuntime f]\<rparr>
                | None \<Rightarrow> s2);
          s4 = s3\<lparr>calls := calls s3 @ [CallParent data]\<rparr>
      in drain resolves s4)"

text \<open>The state after the bootstrap: the entry chunk 404 is installed.\<close>

definition initial_runtime :: "(nat \<rightharpoonup> factory) \<Rightarrow> runtime" where
  "initial_runtime ms =
     \<lparr>installedChunks = [404 \<mapsto> Installed], modules = ms, promise_store = [],
      scripts = [], calls = []\<rparr>"


subsection \<open>Runs of the runtime\<close>

text \<open>
  What can happen to the runtime: a call of \<^verbatim>\<open>__webpack_require__.e(chunkId)\<close>, which
  hands \<^verbatim>\<open>f.j\<close> an empty \<^verbatim>\<open>promises\<close> array; a load or error event of a script;
  a script's timer running out; a fetched chunk file calling \<^verbatim>\<open>webpackJsonp.push\<close>.
\<close>

datatype action =
    Request nat
  | ScriptEvent nat string
  | TimerFires nat
  | JsonpPush jsonp_data

fun step :: "action \<Rightarrow> runtime \<Rightarrow> runtime" where
  "step (Request chunkId) s = snd (f_j chunkId [] s)"
| "step (ScriptEvent sid ty) s = script_event sid ty s"
| "step (TimerFires sid) s = timer_fires sid s"
| "step (JsonpPush data) s = webpackJsonpCallback data s"

fun run :: "action list \<Rightarrow> runtime \<Rightarrow> runtime" where
  "run [] s = s"
| "run (a # rest) s = run rest (step a s)"

text \<open>The \<^verbatim>\<open>promises\<close> array each request of a run gets back, with the chunk asked for.\<close>

fun handed :: "action list \<Rightarrow> runtime \<Rightarrow> (nat \<times> nat list) list" where
  "handed [] s = []"
| "handed (Request chunkId # rest) s =
     (chunkId, fst (f_j chunkId [] s)) # handed rest (step (Request chunkId) s)"
| "handed (a # rest) s = handed rest (step a s)"

text \<open>
  An action ends the current load of chunk \<open>c\<close> when it is an event or the timer of a
  script fetching \<open>c\<close>, or a registration that lists \<open>c\<close>.
\<close>

fun ends_load :: "nat \<Rightarrow> action \<Rightarrow> runtime \<Rightarrow> bool" where
  "ends_load c (Request chunkId) s = False"
| "ends_load c (ScriptEvent sid ty) s = (sid < length (scripts s) \<and> chunk (scripts s ! sid) = c)"
| "ends_load c (TimerFires sid) s = (sid < length (scripts s) \<and> chunk (scripts s ! sid) = c)"
| "ends_load c (JsonpPush data) s = (c \<in> set (d0 data))"

fun undisturbed :: "nat \<Rightarrow> action list \<Rightarrow> runtime \<Rightarrow> bool" where
  "undisturbed c [] s = True"
| "undisturbed c (a # rest) s = (\<not> ends_load c a s \<and> undisturbed c rest (step a s))"

definition fetches :: "nat \<Rightarrow> runtime \<Rightarrow> nat" where
  "fetches c s = length (filter (\<lambda>sc. chunk sc = c) (scripts s))"

text \<open>Every loading entry names a promise of the store.\<close>

definition entries_in_store :: "runtime \<Rightarrow> bool" where
  "entries_in_store s =
     (\<forall>c p. installedChunks s c = Some (Loading p) \<longrightarrow> p < length (promise_store s))"

subsection \<open>States of one chunk during a run\<close>

text \<open>
  Chunk \<open>c\<close> is in flight: its entry is the pending promise \<open>p\<close>, which no other
  entry names, and script \<open>sid\<close> fetches it with handlers and timer still set.
\<close>

definition in_flight :: "nat \<Rightarrow> nat \<Rightarrow> nat \<Rightarrow> runtime \<Rightarrow> bool" where
  "in_flight c p sid s =
     (installedChunks s c = Some (Loading p)
      \<and> p < length (promise_store s) \<and> promise_store s ! p = Pending
      \<and> (\<forall>c'. c' \<noteq> c \<longrightarrow> installedChunks s c' \<noteq> Some (Loading p))
      \<and> entries_in_store s
      \<and> sid < length (scripts s)
      \<and> scripts s ! sid =
          \<lparr>src = publicPath @ chunk_filename c, handlers = True, timer = Some 120000, chunk = c\<rparr>)"

definition idle :: "nat \<Rightarrow> runtime \<Rightarrow> bool" where
  "idle c s = (installedChunks s c = None \<and> entries_in_store s)"

text \<open>
  The chunk ids of a list, each at its first place. The promises of the listed chunks that
  are loading, one for each chunk, in that order.
\<close>

primrec first_occurrences :: "nat list \<Rightarrow> nat list" where
  "first_occurrences [] = []"
| "first_occurrences (c # cs) = c # filter (\<lambda>x. x \<noteq> c) (first_occurrences cs)"

definition waiting :: "(nat \<rightharpoonup> chunk_entry) \<Rightarrow> nat list \<Rightarrow> nat list" where
  "waiting ic ids =
     concat (map (\<lambda>c. case ic c of Some (Loading p) \<Rightarrow> [p] | _ \<Rightarrow> [])
                 (first_occurrences ids))"


section \<open>The bundle-loader wrapper module\<close>

text \<open>
  Module 1 of the same example: \<^verbatim>\<open>var cbs = [], data;\<close>, the exported registration
  function, and the function passed to \<^verbatim>\<open>then\<close>. Callbacks are the caller's
  functions; each call \<^verbatim>\<open>cb(data)\<close> is recorded with its argument. \<^verbatim>\<open>null\<close> and
  \<^verbatim>\<open>undefined\<close> are \<open>None\<close>.
\<close>

record ('cb, 'v) wrapper =
  cbs :: "'cb list option"
  data :: "'v option"
  fired :: "('cb \<times> 'v option) list"

datatype js_error = TypeError | RangeError | Error string

definition wrapper_init :: "('cb, 'v) wrapper" where
  "wrapper_init = \<lparr>cbs = Some [], data = None, fired = []\<rparr>"

definition register :: "'cb \<Rightarrow> ('cb, 'v) wrapper \<Rightarrow> ('cb, 'v) wrapper" where
  "register cb w =
     (case cbs w of
        Some l \<Rightarrow> w\<lparr>cbs := Some (l @ [cb])\<rparr>
      | None \<Rightarrow> w\<lparr>fired := fired w @ [(cb, data w)]\<rparr>)"

fun call_each :: "'cb list \<Rightarrow> ('cb, 'v) wrapper \<Rightarrow> ('cb, 'v) wrapper" where
  "call_each [] w = w"
| "call_each (cb # rest) w = call_each rest (w\<lparr>fired := fired w @ [(cb, data w)]\<rparr>)"

text \<open>
  The \<^verbatim>\<open>then\<close> function, given the exports \<^verbatim>\<open>__webpack_require__(2)\<close> returned.
  Reading \<^verbatim>\<open>callbacks.length\<close> of \<^verbatim>\<open>null\<close> throws.
\<close>

definition chunk_loaded :: "'v \<Rightarrow> ('cb, 'v) wrapper \<Rightarrow> js_error + ('cb, 'v) wrapper" where
  "chunk_loaded exports w =
     (let w1 = w\<lparr>data := Some exports\<rparr>;
          callbacks = cbs w1;
          w2 = w1\<lparr>cbs := None\<rparr>
      in case callbacks of
           None \<Rightarrow> Inl TypeError
         | Some l \<Rightarrow> Inr (call_each l w2))"

fun register_all :: "'cb list \<Rightarrow> ('cb, 'v) wrapper \<Rightarrow> ('cb, 'v) wrapper" where
  "register_all [] w = w"
| "register_all (cb # rest) w = register_all rest (register cb w)"

section \<open>Id options in WebpackOptionsApply.process\<close>

text \<open>
  The two \<^verbatim>\<open>switch\<close> statements on \<^verbatim>\<open>options.optimization.moduleIds\<close> and
  \<^verbatim>\<open>options.optimization.chunkIds\<close>. An option holds a JavaScript value; a plugin
  that is applied is appended to the compiler's list.
\<close>

datatype option_value = OUndefined | OBool bool | OString string

datatype plugin =
    NaturalModuleIdsPlugin
  | NamedModuleIdsPlugin
  | WarnDeprecatedOptionPlugin string string string
  | HashedModuleIdsPlugin
  | DeterministicModuleIdsPlugin
  | OccurrenceModuleIdsPlugin bool
  | NaturalChunkIdsPlugin
  | NamedChunkIdsPlugin
  | DeterministicChunkIdsPlugin
  | OccurrenceChunkIdsPlugin bool

fun truthy_option :: "option_value \<Rightarrow> bool" where
  "truthy_option OUndefined = False"
| "truthy_option (OBool b) = b"
| "truthy_option (OString s) = (s \<noteq> [])"

fun option_text :: "option_value \<Rightarrow> string" where
  "option_text OUndefined = ''undefined''"
| "option_text (OBool b) = (if b then ''true'' else ''false'')"
| "option_text (OString s) = s"

definition apply_moduleIds :: "option_value \<Rightarrow> plugin list \<Rightarrow> js_error + plugin list" where
  "apply_moduleIds moduleIds compiler =
     (if truthy_option moduleIds then
        (if moduleIds = OString ''natural'' then Inr (compiler @ [NaturalModuleIdsPlugin])
         else if moduleIds = OString ''named'' then Inr (compiler @ [NamedModuleIdsPlugin])
         else if moduleIds = OString ''hashed'' then
           Inr (compiler @
                [WarnDeprecatedOptionPlugin ''optimization.moduleIds'' ''hashed'' ''deterministic'',
                 HashedModuleIdsPlugin])
         else if moduleIds = OString ''deterministic'' then
           Inr (compiler @ [DeterministicModuleIdsPlugin])
         else if moduleIds = OString ''size'' then
           Inr (compiler @ [OccurrenceModuleIdsPlugin True])
         else Inl (Error (''webpack bug: moduleIds: '' @ option_text moduleIds
                          @ '' is not implemented'')))
      else Inr compiler)"

definition apply_chunkIds :: "option_value \<Rightarrow> plugin list \<Rightarrow> js_error + plugin list" where
  "apply_chunkIds chunkIds compiler =
     (if truthy_option chunkIds then
        (if chunkIds = OString ''natural'' then Inr (compiler @ [NaturalChunkIdsPlugin])
         else if chunkIds = OString ''named'' then Inr (compiler @ [NamedChunkIdsPlugin])
         else if chunkIds = OString ''deterministic'' then
           Inr (compiler @ [DeterministicChunkIdsPlugin])
         else if chunkIds = OString ''size'' then
           Inr (compiler @ [OccurrenceChunkIdsPlugin True])
         else if chunkIds = OString ''total-size'' then
           Inr (compiler @ [OccurrenceChunkIdsPlugin False])
         else Inl (Error (''webpack bug: chunkIds: '' @ option_text chunkIds
                          @ '' is not implemented'')))
      else Inr compiler)"

text \<open>The two statements in sequence; a throw of the first skips the second.\<close>

definition apply_id_options ::
  "option_value \<Rightarrow> option_value \<Rightarrow> plugin list \<Rightarrow> js_error + plugin list" where
  "apply_id_options moduleIds chunkIds compiler =
     (case apply_moduleIds moduleIds compiler of
        Inl e \<Rightarrow> Inl e
      | Inr compiler1 \<Rightarrow> apply_chunkIds chunkIds compiler1)"

fun assigns_module_ids :: "plugin \<Rightarrow> bool" where
  "assigns_module_ids NaturalModuleIdsPlugin = True"
| "assigns_module_ids NamedModuleIdsPlugin = True"
| "assigns_module_ids HashedModuleIdsPlugin = True"
| "assigns_module_ids DeterministicModuleIdsPlugin = True"
| "assigns_module_ids (OccurrenceModuleIdsPlugin b) = True"
| "assigns_module_ids p = False"

fun assigns_chunk_ids :: "plugin \<Rightarrow> bool" where
  "assigns_chunk_ids NaturalChunkIdsPlugin = True"
| "assigns_chunk_ids NamedChunkIdsPlugin = True"
| "assigns_chunk_ids DeterministicChunkIdsPlugin = True"
| "assigns_chunk_ids (OccurrenceChunkIdsPlugin b) = True"
| "assigns_chunk_ids p = False"


text \<open>
  What the options are said to stand for: the plugins of each value that
  \<^verbatim>\<open>moduleIds\<close> knows and of each value that \<^verbatim>\<open>chunkIds\<close> knows. The flag of an
  occurrence plugin is its \<^verbatim>\<open>prioritiseInitial\<close>.
\<close>

definition moduleIds_strategies :: "(string \<times> plugin list) list" where
  "moduleIds_strategies =
     [(''natural'', [NaturalModuleIdsPlugin]),
      (''named'', [NamedModuleIdsPlugin]),
      (''hashed'',
         [WarnDeprecatedOptionPlugin ''optimization.moduleIds'' ''hashed'' ''deterministic'',
          HashedModuleIdsPlugin]),
      (''deterministic'', [DeterministicModuleIdsPlugin]),
      (''size'', [OccurrenceModuleIdsPlugin True])]"

definition chunkIds_strategies :: "(string \<times> plugin list) list" where
  "chunkIds_strategies =
     [(''natural'', [NaturalChunkIdsPlugin]),
      (''named'', [NamedChunkIdsPlugin]),
      (''deterministic'', [DeterministicChunkIdsPlugin]),
      (''size'', [OccurrenceChunkIdsPlugin True]),
      (''total-size'', [OccurrenceChunkIdsPlugin False])]"

fun strategy_of :: "(string \<times> plugin list) list \<Rightarrow> option_value \<Rightarrow> plugin list option" where
  "strategy_of table (OString s) = map_of table s"
| "strategy_of table v = None"

definition plugins_for :: "(string \<times> plugin list) list \<Rightarrow> option_value \<Rightarrow> plugin list" where
  "plugins_for table v =
     (if truthy_option v
      then (case strategy_of table v of Some ps \<Rightarrow> ps | None \<Rightarrow> [])
      else [])"

section \<open>LibManifestPlugin\<close>

text \<open>
  JavaScript values as far as the manifest needs them. An object is the list of its
  properties in the order in which its keys are enumerated: first the keys that are
  array indices (a decimal numeral without leading zero, below \<open>2^32 - 1\<close>) by rising
  value, then the other keys in the order of their creation. So
  \<^verbatim>\<open>obj[key] = value\<close> replaces the value of an existing key in place, puts a new
  array index at its place among the indices, and appends any other new key.
\<close>

datatype jsval =
    JUndefined
  | JNull
  | JBool bool
  | JNum int
  | JStr string
  | JArr "jsval list"
  | JObj "(string \<times> jsval) list"

fun isArray :: "jsval \<Rightarrow> bool" where
  "isArray (JArr vs) = True"
| "isArray v = False"

fun js_truthy :: "jsval \<Rightarrow> bool" where
  "js_truthy JUndefined = False"
| "js_truthy JNull = False"
| "js_truthy (JBool b) = b"
| "js_truthy (JNum n) = (n \<noteq> 0)"
| "js_truthy (JStr s) = (s \<noteq> [])"
| "js_truthy (JArr vs) = True"
| "js_truthy (JObj ps) = True"

fun js_member :: "jsval \<Rightarrow> string \<Rightarrow> jsval" where
  "js_member (JObj ps) k = (case map_of ps k of Some v \<Rightarrow> v | None \<Rightarrow> JUndefined)"
| "js_member v k = JUndefined"

text \<open>
  \<^verbatim>\<open>JSON.stringify\<close>, up to the layout of the text: the value a reader of the written
  text gets back. A property whose value is \<^verbatim>\<open>undefined\<close> is left out of an object;
  in an array \<^verbatim>\<open>undefined\<close> is written as \<^verbatim>\<open>null\<close>.
\<close>

fun stringify :: "jsval \<Rightarrow> jsval"
  and stringify_props :: "(string \<times> jsval) list \<Rightarrow> (string \<times> jsval) list"
  and stringify_elems :: "jsval list \<Rightarrow> jsval list" where
  "stringify (JObj ps) = JObj (stringify_props ps)"
| "stringify (JArr vs) = JArr (stringify_elems vs)"
| "stringify JUndefined = JUndefined"
| "stringify JNull = JNull"
| "stringify (JBool b) = JBool b"
| "stringify (JNum n) = JNum n"
| "stringify (JStr s) = JStr s"
| "stringify_props [] = []"
| "stringify_props (kv # ps) =
     (if snd kv = JUndefined then stringify_props ps
      else (fst kv, stringify (snd kv)) # stringify_props ps)"
| "stringify_elems [] = []"
| "stringify_elems (v # vs) =
     (if v = JUndefined then JNull else stringify v) # stringify_elems vs"

text \<open>
  A module as the plugin sees it: the results of \<^verbatim>\<open>chunkGraph.getModuleId\<close>, of
  \<^verbatim>\<open>module.libIdent\<close> (a string, or nothing) and of
  \<^verbatim>\<open>moduleGraph.getProvidedExports\<close>, its \<^verbatim>\<open>buildMeta\<close>, and for each incoming
  connection whether its dependency is an \<^verbatim>\<open>EntryDependency\<close>. A chunk: the result of
  \<^verbatim>\<open>isOnlyInitial()\<close>, its modules as \<^verbatim>\<open>getOrderedChunkModulesIterable\<close> yields
  them, and the two paths \<^verbatim>\<open>compilation.getPath\<close> computes for it. These methods
  belong to classes outside the plugin.
\<close>

record module_info =
  moduleId :: jsval
  buildMeta :: jsval
  libIdent :: "string option"
  providedExports :: jsval
  incoming_entry :: "bool list"

record chunk_info =
  isOnlyInitial :: bool
  orderedModules :: "module_info list"
  targetPath :: string
  namePath :: string

record manifest_options =
  opt_name :: "string option"
  opt_type :: jsval
  opt_entryOnly :: bool
  opt_format :: bool

text \<open>The function mapped over the chunk's modules; \<open>None\<close> is its \<^verbatim>\<open>undefined\<close>.\<close>

definition manifest_item :: "manifest_options \<Rightarrow> module_info \<Rightarrow> (string \<times> jsval) option" where
  "manifest_item opts m =
     (if opt_entryOnly opts \<and> \<not> list_ex (\<lambda>c. c) (incoming_entry m) then None
      else case libIdent m of
             None \<Rightarrow> None
           | Some ident \<Rightarrow>
               if ident = [] then None
               else Some (ident,
                      JObj [(''id'', moduleId m),
                            (''buildMeta'', buildMeta m),
                            (''exports'',
                               if isArray (providedExports m) then providedExports m
                               else JUndefined)]))"

definition is_digit :: "char \<Rightarrow> bool" where
  "is_digit ch = (ch \<in> set ''0123456789'')"

definition numeral_value :: "string \<Rightarrow> nat" where
  "numeral_value k = foldl (\<lambda>n ch. 10 * n + (of_char ch - 48)) 0 k"

definition is_array_index :: "string \<Rightarrow> bool" where
  "is_array_index k =
     (k \<noteq> [] \<and> list_all is_digit k \<and> (k = ''0'' \<or> hd k \<noteq> CHR ''0'')
      \<and> numeral_value k < 4294967295)"

fun insert_index :: "string \<Rightarrow> jsval \<Rightarrow> (string \<times> jsval) list \<Rightarrow> (string \<times> jsval) list" where
  "insert_index k v [] = [(k, v)]"
| "insert_index k v (kv # ps) =
     (if is_array_index (fst kv) \<and> numeral_value (fst kv) < numeral_value k
      then kv # insert_index k v ps
      else (k, v) # kv # ps)"

definition js_assign :: "string \<Rightarrow> jsval \<Rightarrow> (string \<times> jsval) list \<Rightarrow> (string \<times> jsval) list" where
  "js_assign k v ps =
     (if k \<in> set (map fst ps) then AList.update k v ps
      else if is_array_index k then insert_index k v ps
      else ps @ [(k, v)])"

text \<open>\<^verbatim>\<open>.filter(Boolean).reduce(...)\<close> into an empty object.\<close>

fun collect_items :: "(string \<times> jsval) option list \<Rightarrow> (string \<times> jsval) list \<Rightarrow> (string \<times> jsval) list" where
  "collect_items [] obj = obj"
| "collect_items (None # rest) obj = collect_items rest obj"
| "collect_items (Some item # rest) obj = collect_items rest (js_assign (fst item) (snd item) obj)"

definition manifest_content :: "manifest_options \<Rightarrow> chunk_info \<Rightarrow> (string \<times> jsval) list" where
  "manifest_content opts c = collect_items (map (manifest_item opts) (orderedModules c)) []"

definition manifest :: "manifest_options \<Rightarrow> chunk_info \<Rightarrow> jsval" where
  "manifest opts c =
     JObj [(''name'',
              case opt_name opts of
                None \<Rightarrow> JUndefined
              | Some n \<Rightarrow> if n = [] then JStr n else JStr (namePath c)),
           (''type'', opt_type opts),
           (''content'', JObj (manifest_content opts c))]"

text \<open>
  What one chunk makes the output file system do. \<open>mkdirp_fails\<close> tells for which
  directories \<^verbatim>\<open>mkdirp\<close> reports an error; \<open>dirname\<close> is \<^verbatim>\<open>path.dirname\<close>. The
  written content is the manifest as \<^verbatim>\<open>JSON.stringify\<close> leaves it, with the flag
  that selects the indented layout.
\<close>

datatype fs_op = Mkdirp string | WriteFile string bool jsval

definition emit_chunk ::
  "(string \<Rightarrow> string) \<Rightarrow> (string \<Rightarrow> bool) \<Rightarrow> manifest_options \<Rightarrow> chunk_info \<Rightarrow> fs_op list" where
  "emit_chunk dirname mkdirp_fails opts c =
     (if \<not> isOnlyInitial c then []
      else Mkdirp (dirname (targetPath c)) #
           (if mkdirp_fails (dirname (targetPath c)) then []
            else [WriteFile (targetPath c) (opt_format opts) (stringify (manifest opts c))]))"

definition emit_manifests ::
  "(string \<Rightarrow> string) \<Rightarrow> (string \<Rightarrow> bool) \<Rightarrow> manifest_options \<Rightarrow> chunk_info list \<Rightarrow> fs_op list list" where
  "emit_manifests dirname mkdirp_fails opts chunks =
     map (emit_chunk dirname mkdirp_fails opts) chunks"

fun is_write :: "fs_op \<Rightarrow> bool" where
  "is_write (WriteFile path fmt v) = True"
| "is_write (Mkdirp dir) = False"

text \<open>The entry of a written manifest for one module identity.\<close>

definition written_entry :: "manifest_options \<Rightarrow> chunk_info \<Rightarrow> string \<Rightarrow> jsval" where
  "written_entry opts c ident =
     js_member (js_member (stringify (manifest opts c)) ''content'') ident"

fun has_key :: "jsval \<Rightarrow> string \<Rightarrow> bool" where
  "has_key (JObj ps) k = (k \<in> set (map fst ps))"
| "has_key v k = False"

section \<open>EvalSourceMapDevToolModuleTemplatePlugin\<close>

text \<open>
  Modelled from the spec: \<^verbatim>\<open>ModuleFilenameHelpers.replaceDuplicates\<close> is not among the
  sources. The spec says that the entries are "de-duplicated by appending marker
  characters to otherwise-identical filenames - never by silently colliding entries",
  and the plugin hands it a function of the entry, its index and a number \<open>n\<close> that
  appends \<open>n\<close> marker characters. How \<open>n\<close> is found is said by neither; the model takes
  the entries from left to right and gives each the fewest markers with which it collides
  neither with an entry already put out nor with a different entry still to come.

  \<open>pick name taken\<close> is the name for the least \<open>n\<close> that is not taken. At most as many
  markers as there are taken names are ever needed; should the function given return a
  taken name for each of these numbers, the name for the next number is used.
\<close>

definition pick :: "(nat \<Rightarrow> string) \<Rightarrow> string list \<Rightarrow> string" where
  "pick name taken =
     (case List.find (\<lambda>n. name n \<notin> set taken) [0..<Suc (length taken)] of
        Some n \<Rightarrow> name n
      | None \<Rightarrow> name (Suc (length taken)))"

text \<open>
  Modelled from the spec: the pass over the entries. \<open>out\<close> holds the entries put out
  so far and \<open>i\<close> is the index of the entry at hand.
\<close>

fun dedup ::
  "(string \<Rightarrow> nat \<Rightarrow> nat \<Rightarrow> string) \<Rightarrow> string list \<Rightarrow> nat \<Rightarrow> string list \<Rightarrow> string list" where
  "dedup fn out i [] = []"
| "dedup fn out i (item # rest) =
     (let r = pick (fn item i) (out @ filter (\<lambda>x. x \<noteq> item) rest)
      in r # dedup fn (out @ [r]) (Suc i) rest)"

text \<open>
  Modelled from the spec: \<^verbatim>\<open>ModuleFilenameHelpers.replaceDuplicates(array, fn)\<close>, the
  pass started at the first entry with nothing put out.
\<close>

definition replaceDuplicates ::
  "string list \<Rightarrow> (string \<Rightarrow> nat \<Rightarrow> nat \<Rightarrow> string) \<Rightarrow> string list" where
  "replaceDuplicates array fn = dedup fn [] 0 array"

text \<open>\<^verbatim>\<open>(filename, i, n) => { for (let j = 0; j < n; j++) filename += "*"; return filename; }\<close>\<close>

definition add_stars :: "string \<Rightarrow> nat \<Rightarrow> nat \<Rightarrow> string" where
  "add_stars filename i n = filename @ replicate n (CHR ''*'')"

text \<open>
  The new \<^verbatim>\<open>sources\<close> list. \<open>findModule\<close> is \<^verbatim>\<open>compilation.findModule\<close> and
  \<open>createFilename\<close> is \<^verbatim>\<open>ModuleFilenameHelpers.createFilename\<close> with the plugin's
  template and namespace; it is given the module, or the source itself when there is none.
\<close>

definition module_names ::
  "(string \<Rightarrow> 'm option) \<Rightarrow> ('m + string \<Rightarrow> string) \<Rightarrow> string list \<Rightarrow> string list" where
  "module_names findModule createFilename sources =
     map (\<lambda>source. createFilename
                      (case findModule source of Some m \<Rightarrow> Inl m | None \<Rightarrow> Inr source))
         sources"

definition moduleFilenames ::
  "(string \<Rightarrow> 'm option) \<Rightarrow> ('m + string \<Rightarrow> string) \<Rightarrow> string list \<Rightarrow> string list" where
  "moduleFilenames findModule createFilename sources =
     replaceDuplicates (module_names findModule createFilename sources) add_stars"

text \<open>
  \<^verbatim>\<open>Buffer.from(text, "utf8").toString("base64")\<close>; a string is the list of its
  bytes.
\<close>

definition b64_char :: "nat \<Rightarrow> char" where
  "b64_char n = ''ABCDEFGHIJKLMNOPQRSTUVWXYZabcdefghijklmnopqrstuvwxyz0123456789+/'' ! n"

fun base64_bytes :: "nat list \<Rightarrow> string" where
  "base64_bytes [] = []"
| "base64_bytes [a] =
     [b64_char (a div 4), b64_char ((a mod 4) * 16), CHR ''='', CHR ''='']"
| "base64_bytes [a, b] =
     [b64_char (a div 4), b64_char ((a mod 4) * 16 + b div 16),
      b64_char ((b mod 16) * 4), CHR ''='']"
| "base64_bytes (a # b # c # rest) =
     [b64_char (a div 4), b64_char ((a mod 4) * 16 + b div 16),
      b64_char ((b mod 16) * 4 + c div 64), b64_char (c mod 64)] @ base64_bytes rest"

definition base64 :: "string \<Rightarrow> string" where
  "base64 text = base64_bytes (map of_char text)"

text \<open>
  \<^verbatim>\<open>comment.replace(/\[url\]/g, replacement)\<close>: the matches are found from left to
  right and do not overlap. The replacement used below holds no \<^verbatim>\<open>$\<close>, so it is
  inserted as it is.
\<close>

function replace_url :: "string \<Rightarrow> string \<Rightarrow> string" where
  "replace_url replacement [] = []"
| "replace_url replacement (c # cs) =
     (if prefix ''[url]'' (c # cs) then replacement @ replace_url replacement (drop 4 cs)
      else c # replace_url replacement cs)"
  by pat_completeness auto
termination
  by (relation "measure (\<lambda>(r, s). length s)") auto

fun has_url :: "string \<Rightarrow> bool" where
  "has_url [] = False"
| "has_url (c # cs) = (prefix ''[url]'' (c # cs) \<or> has_url cs)"

text \<open>
  The constructor's choice of the comment, and the footer. \<open>json\<close> is
  \<^verbatim>\<open>JSON.stringify(sourceMap)\<close> and \<open>id_text\<close> the text of \<^verbatim>\<open>moduleId\<close>.
\<close>

definition sourceMapComment :: "string option \<Rightarrow> string" where
  "sourceMapComment options_append =
     (case options_append of
        Some a \<Rightarrow> if a = [] then
                    ''//# sourceURL=[module]'' @ [CHR ''\<newline>''] @ ''//# sourceMappingURL=[url]''
                  else a
      | None \<Rightarrow> ''//# sourceURL=[module]'' @ [CHR ''\<newline>''] @ ''//# sourceMappingURL=[url]'')"

definition data_uri :: "string \<Rightarrow> string" where
  "data_uri json = ''data:application/json;charset=utf-8;base64,'' @ base64 json"

definition footer :: "string \<Rightarrow> string \<Rightarrow> string \<Rightarrow> string" where
  "footer comment json id_text =
     replace_url (data_uri json) comment
       @ [CHR ''\<newline>''] @ ''//# sourceURL=webpack-internal:///'' @ id_text @ [CHR ''\<newline>'']"

text \<open>A comment cut at its placeholders, and put together again around something else.\<close>

fun join :: "string \<Rightarrow> string list \<Rightarrow> string" where
  "join sep [] = []"
| "join sep [seg] = seg"
| "join sep (seg # rest) = seg @ sep @ join sep rest"


section \<open>The module decorators of NodeStuffPlugin\<close>

text \<open>
  The two runtime functions that \<^verbatim>\<open>HarmonyModuleDecoratorRuntimeModule.generate\<close>
  and \<^verbatim>\<open>NodeModuleDecoratorRuntimeModule.generate\<close> print work on objects, so the
  model has a heap: a list of objects, an object named by its index. A property is a
  data property (value, writable, enumerable, configurable) or an accessor property
  (getter, enumerable, configurable); no accessor here has a setter. The only getters
  are the closures \<^verbatim>\<open>function () { return module.l; }\<close> and
  \<^verbatim>\<open>function () { return module.i; }\<close>: each returns one property of one object.
\<close>

datatype val = VUndefined | VBool bool | VNum int | VStr string | VArr "val list" | VRef nat

datatype getter = ReturnProp nat string

datatype property = Data val bool bool bool | Accessor getter bool bool

record object =
  proto :: "nat option"
  props :: "(string \<times> property) list"

type_synonym heap = "object list"

fun truthy :: "val \<Rightarrow> bool" where
  "truthy VUndefined = False"
| "truthy (VBool b) = b"
| "truthy (VNum n) = (n \<noteq> 0)"
| "truthy (VStr s) = (s \<noteq> [])"
| "truthy (VArr vs) = True"
| "truthy (VRef a) = True"

text \<open>
  The property a name denotes on an object: its own one, else the one of its prototype
  chain. A chain of JavaScript objects has no cycle, so it is no longer than the heap.
\<close>

fun find_property :: "nat \<Rightarrow> heap \<Rightarrow> nat \<Rightarrow> string \<Rightarrow> property option" where
  "find_property 0 h a k = None"
| "find_property (Suc n) h a k =
     (if a < length h then
        (case map_of (props (h ! a)) k of
           Some p \<Rightarrow> Some p
         | None \<Rightarrow> (case proto (h ! a) of
                      Some b \<Rightarrow> find_property n h b k
                    | None \<Rightarrow> None))
      else None)"

definition lookup :: "heap \<Rightarrow> nat \<Rightarrow> string \<Rightarrow> property option" where
  "lookup h a k = find_property (length h) h a k"

text \<open>
  Reading \<^verbatim>\<open>object.name\<close>. A getter is called, and reads in turn. Getters that call
  each other for ever end in a \<^verbatim>\<open>RangeError\<close>; a chain that ends passes each
  property of the heap at most once, which bounds the number of calls.
\<close>

fun get_within :: "nat \<Rightarrow> heap \<Rightarrow> nat \<Rightarrow> string \<Rightarrow> js_error + val" where
  "get_within 0 h a k = Inl RangeError"
| "get_within (Suc n) h a k =
     (case lookup h a k of
        None \<Rightarrow> Inr VUndefined
      | Some (Data v w e c) \<Rightarrow> Inr v
      | Some (Accessor (ReturnProp b k') e c) \<Rightarrow> get_within n h b k')"

definition get :: "heap \<Rightarrow> nat \<Rightarrow> string \<Rightarrow> js_error + val" where
  "get h a k = get_within (Suc (length (concat (map props h)))) h a k"

definition set_own :: "heap \<Rightarrow> nat \<Rightarrow> string \<Rightarrow> property \<Rightarrow> heap" where
  "set_own h a k p = h[a := (h ! a)\<lparr>props := AList.update k p (props (h ! a))\<rparr>]"

text \<open>
  The assignment \<^verbatim>\<open>object.name = value\<close> in strict code (the runtime starts with
  \<^verbatim>\<open>"use strict"\<close>): it throws where the property found is an accessor without
  setter or a data property that is not writable.
\<close>

definition put :: "heap \<Rightarrow> nat \<Rightarrow> string \<Rightarrow> val \<Rightarrow> js_error + heap" where
  "put h a k v =
     (if a < length h then
        (case lookup h a k of
           None \<Rightarrow> Inr (set_own h a k (Data v True True True))
         | Some (Accessor g e c) \<Rightarrow> Inl TypeError
         | Some (Data old w e c) \<Rightarrow>
             if \<not> w then Inl TypeError
             else (case map_of (props (h ! a)) k of
                     Some own_p \<Rightarrow> Inr (set_own h a k (Data v w e c))
                   | None \<Rightarrow> Inr (set_own h a k (Data v True True True))))
      else Inl TypeError)"

text \<open>
  \<^verbatim>\<open>Object.defineProperty(object, name, { enumerable: true, get: g })\<close>: a new
  property is an accessor that is not configurable; an own property that is configurable
  becomes this accessor; one that is not configurable cannot be redefined with a new
  function.
\<close>

definition define_getter :: "heap \<Rightarrow> nat \<Rightarrow> string \<Rightarrow> getter \<Rightarrow> js_error + heap" where
  "define_getter h a k g =
     (if a < length h then
        (case map_of (props (h ! a)) k of
           None \<Rightarrow> Inr (set_own h a k (Accessor g True False))
         | Some (Data v w e c) \<Rightarrow>
             if c then Inr (set_own h a k (Accessor g True True)) else Inl TypeError
         | Some (Accessor g' e c) \<Rightarrow>
             if c then Inr (set_own h a k (Accessor g True True)) else Inl TypeError)
      else Inl TypeError)"

text \<open>
  \<^verbatim>\<open>Object.defineProperty(object, name, { enumerable: true })\<close>: a new property is a
  data property with the value \<^verbatim>\<open>undefined\<close>, neither writable nor configurable; an
  own property only becomes enumerable, which fails if it is not configurable and not
  enumerable.
\<close>

definition define_enumerable :: "heap \<Rightarrow> nat \<Rightarrow> string \<Rightarrow> js_error + heap" where
  "define_enumerable h a k =
     (if a < length h then
        (case map_of (props (h ! a)) k of
           None \<Rightarrow> Inr (set_own h a k (Data VUndefined False True False))
         | Some (Data v w e c) \<Rightarrow>
             if c then Inr (set_own h a k (Data v w True c))
             else if e then Inr h else Inl TypeError
         | Some (Accessor g e c) \<Rightarrow>
             if c then Inr (set_own h a k (Accessor g True c))
             else if e then Inr h else Inl TypeError)
      else Inl TypeError)"

definition and_then :: "js_error + 'a \<Rightarrow> ('a \<Rightarrow> js_error + 'b) \<Rightarrow> js_error + 'b" where
  "and_then r f = (case r of Inl e \<Rightarrow> Inl e | Inr x \<Rightarrow> f x)"

text \<open>\<^verbatim>\<open>if (!module.children) module.children = [];\<close>\<close>

definition init_children :: "nat \<Rightarrow> heap \<Rightarrow> js_error + heap" where
  "init_children module h =
     and_then (get h module ''children'')
       (\<lambda>children. if \<not> truthy children then put h module ''children'' (VArr []) else Inr h)"

text \<open>The function printed by \<^verbatim>\<open>NodeModuleDecoratorRuntimeModule.generate\<close>.\<close>

definition nodeModuleDecorator :: "nat \<Rightarrow> heap \<Rightarrow> js_error + nat \<times> heap" where
  "nodeModuleDecorator module h =
     and_then (put h module ''paths'' (VArr [])) (\<lambda>h1.
     and_then (init_children module h1) (\<lambda>h2.
     and_then (define_getter h2 module ''loaded'' (ReturnProp module ''l'')) (\<lambda>h3.
     and_then (define_getter h3 module ''id'' (ReturnProp module ''i'')) (\<lambda>h4.
     Inr (module, h4)))))"

text \<open>
  The function printed by \<^verbatim>\<open>HarmonyModuleDecoratorRuntimeModule.generate\<close>. Its first
  statement makes \<^verbatim>\<open>module\<close> a new object whose prototype is the argument.
\<close>

definition harmonyModuleDecorator :: "nat \<Rightarrow> heap \<Rightarrow> js_error + nat \<times> heap" where
  "harmonyModuleDecorator arg h =
     (if arg < length h then
        (let module = length h;
             h0 = h @ [\<lparr>proto = Some arg, props = []\<rparr>]
         in and_then (init_children module h0) (\<lambda>h1.
            and_then (define_getter h1 module ''loaded'' (ReturnProp module ''l'')) (\<lambda>h2.
            and_then (define_getter h2 module ''id'' (ReturnProp module ''i'')) (\<lambda>h3.
            and_then (define_enumerable h3 module ''exports'') (\<lambda>h4.
            Inr (module, h4))))))
      else Inl TypeError)"

text \<open>
  The \<^verbatim>\<open>module\<close> expression hook chooses the runtime global of the dependency from
  \<^verbatim>\<open>buildMeta && buildMeta.exportsType\<close>, and each global brings its runtime module.
\<close>

datatype runtime_global = HarmonyModuleDecoratorGlobal | NodeModuleDecoratorGlobal

definition module_expression :: "jsval \<Rightarrow> runtime_global" where
  "module_expression build_meta =
     (let isHarmony = (if js_truthy build_meta then js_member build_meta ''exportsType''
                       else build_meta)
      in if js_truthy isHarmony then HarmonyModuleDecoratorGlobal
         else NodeModuleDecoratorGlobal)"

fun decorator :: "runtime_global \<Rightarrow> nat \<Rightarrow> heap \<Rightarrow> js_error + nat \<times> heap" where
  "decorator HarmonyModuleDecoratorGlobal = harmonyModuleDecorator"
| "decorator NodeModuleDecoratorGlobal = nodeModuleDecorator"

text \<open>
  The object \<^verbatim>\<open>__webpack_require__\<close> puts in the module cache:
  \<^verbatim>\<open>{ i: moduleId, l: false, exports: {} }\<close>, here with any values.
\<close>

definition module_object :: "val \<Rightarrow> val \<Rightarrow> val \<Rightarrow> object" where
  "module_object i l exports =
     \<lparr>proto = None,
      props = [(''i'', Data i True True True), (''l'', Data l True True True),
               (''exports'', Data exports True True True)]\<rparr>"


section \<open>Properties of the chunk-loading runtime\<close>

subsection \<open>Counting fetches\<close>
lemma count_update:
  "i < length xs \<Longrightarrow> chunk x = chunk (xs ! i) \<Longrightarrow>
   length (filter (\<lambda>sc. chunk sc = c) (xs[i := x])) = length (filter (\<lambda>sc. chunk sc = c) xs)"
proof (induction xs arbitrary: i)
  case Nil
  then show ?case by simp
next
  case (Cons y ys)
  then show ?case by (cases i) simp_all
qed

lemma fetches_update:
  "scripts s' = (scripts s)[sid := sc'] \<Longrightarrow> sid < length (scripts s) \<Longrightarrow>
   chunk sc' = chunk (scripts s ! sid) \<Longrightarrow> fetches c s' = fetches c s"
  by (simp add: fetches_def count_update)

lemma onScriptComplete_other:
  assumes "in_flight c p sid s" "sid' < length (scripts s)" "chunk (scripts s ! sid') \<noteq> c"
  shows "in_flight c p sid (onScriptComplete sid' ty s) \<and> fetches c (onScriptComplete sid' ty s) = fetches c s"
proof -
  let ?c' = "chunk (scripts s ! sid')"
  have ne: "sid' \<noteq> sid" using assms by (auto simp: in_flight_def)
  show ?thesis
  proof (cases "installedChunks s ?c'")
    case None
    then show ?thesis using assms ne
      by (auto simp: onScriptComplete_def loadingEnded_def Let_def in_flight_def entries_in_store_def fetches_update[where s=s])
  next
    case (Some e)
    show ?thesis
    proof (cases e)
      case (Loading q)
      then have "q \<noteq> p" using Some assms by (auto simp: in_flight_def)
      then show ?thesis using assms ne Some Loading
        by (auto simp: onScriptComplete_def loadingEnded_def Let_def in_flight_def entries_in_store_def fetches_update[where s=s] reject_def)
    next
      case Installed
      then show ?thesis using assms ne Some
        by (auto simp: onScriptComplete_def loadingEnded_def Let_def in_flight_def entries_in_store_def fetches_update[where s=s])
    qed
  qed
qed


lemma flag_chunks_snd:
  "snd (flag_chunks ids acc ic) c = (if c \<in> set ids then Some Installed else ic c)"
  by (induction ids arbitrary: acc ic) auto

lemma flag_chunks_fst_set:
  "p \<in> set (fst (flag_chunks ids acc ic)) \<Longrightarrow>
   p \<in> set acc \<or> (\<exists>c \<in> set ids. ic c = Some (Loading p))"
proof (induction ids arbitrary: acc ic)
  case Nil
  then show ?case by simp
next
  case (Cons c cs)
  from Cons.IH [OF Cons.prems [simplified]] show ?case
    by (auto split: option.splits chunk_entry.splits if_splits)
qed

lemma waiting_flagged:
  "concat (map (\<lambda>x. case (ic(c \<mapsto> Installed)) x of Some (Loading p) \<Rightarrow> [p] | _ \<Rightarrow> []) xs)
     = concat (map (\<lambda>x. case ic x of Some (Loading p) \<Rightarrow> [p] | _ \<Rightarrow> [])
                   (filter (\<lambda>x. x \<noteq> c) xs))"
  by (induction xs) auto

lemma flag_chunks_fst:
  "fst (flag_chunks ids acc ic) = acc @ waiting ic ids"
proof (induction ids arbitrary: acc ic)
  case Nil
  then show ?case by (simp add: waiting_def)
next
  case (Cons c cs)
  have "fst (flag_chunks (c # cs) acc ic)
      = fst (flag_chunks cs (case ic c of Some (Loading p) \<Rightarrow> acc @ [p] | _ \<Rightarrow> acc)
               (ic(c \<mapsto> Installed)))"
    by simp
  also have "\<dots>
      = (case ic c of Some (Loading p) \<Rightarrow> acc @ [p] | _ \<Rightarrow> acc) @ waiting (ic(c \<mapsto> Installed)) cs"
    by (rule Cons.IH)
  also have "waiting (ic(c \<mapsto> Installed)) cs
      = concat (map (\<lambda>x. case ic x of Some (Loading p) \<Rightarrow> [p] | _ \<Rightarrow> [])
                    (filter (\<lambda>x. x \<noteq> c) (first_occurrences cs)))"
    unfolding waiting_def by (rule waiting_flagged)
  finally show ?case
    by (simp add: waiting_def split: option.splits chunk_entry.splits)
qed

lemma first_occurrences_set: "set (first_occurrences ids) = set ids"
  by (induction ids) auto

lemma first_occurrences_distinct: "distinct (first_occurrences ids)"
  by (induction ids) auto

lemma waiting_holds:
  "c \<in> set ids \<Longrightarrow> ic c = Some (Loading p) \<Longrightarrow> p \<in> set (waiting ic ids)"
proof -
  assume "c \<in> set ids" and l: "ic c = Some (Loading p)"
  then have "c \<in> set (first_occurrences ids)" by (simp add: first_occurrences_set)
  then show ?thesis using l by (force simp: waiting_def)
qed

lemma drain_fields:
  "installedChunks (drain ps s) = installedChunks s"
  "scripts (drain ps s) = scripts s"
  "modules (drain ps s) = modules s"
  "length (promise_store (drain ps s)) = length (promise_store s)"
  "calls (drain ps s) = calls s @ map CallResolve ps"
  by (induction ps arbitrary: s) (simp_all add: resolve_def)

lemma drain_other:
  "q \<notin> set ps \<Longrightarrow> promise_store (drain ps s) ! q = promise_store s ! q"
  by (induction ps arbitrary: s) (auto simp: resolve_def)

lemma drain_settled:
  "promise_store s ! q \<noteq> Pending \<Longrightarrow> q < length (promise_store s) \<Longrightarrow>
   promise_store (drain ps s) ! q = promise_store s ! q"
  by (induction ps arbitrary: s) (auto simp: resolve_def nth_list_update)

lemma drain_fulfils:
  "q \<in> set ps \<Longrightarrow> q < length (promise_store s) \<Longrightarrow> promise_store s ! q = Pending \<Longrightarrow>
   promise_store (drain ps s) ! q = Fulfilled"
proof (induction ps arbitrary: s)
  case Nil
  then show ?case by simp
next
  case (Cons p ps)
  let ?s1 = "resolve p (s\<lparr>calls := calls s @ [CallResolve p]\<rparr>)"
  have len: "length (promise_store ?s1) = length (promise_store s)"
    by (simp add: resolve_def)
  show ?case
  proof (cases "q = p")
    case True
    then have "promise_store ?s1 ! q = Fulfilled"
      using Cons.prems by (simp add: resolve_def)
    then have "promise_store (drain ps ?s1) ! q = Fulfilled"
      using drain_settled [of ?s1 q ps] len Cons.prems by simp
    then show ?thesis by simp
  next
    case False
    then have "promise_store ?s1 ! q = Pending"
      using Cons.prems by (simp add: resolve_def)
    then show ?thesis using Cons.IH [of ?s1] Cons.prems False len by simp
  qed
qed

lemma callback_fields:
  "installedChunks (webpackJsonpCallback d s) = snd (flag_chunks (d0 d) [] (installedChunks s))"
  "scripts (webpackJsonpCallback d s) = scripts s"
  "length (promise_store (webpackJsonpCallback d s)) = length (promise_store s)"
  "modules (webpackJsonpCallback d s) = add_modules (for_in_keys (d1 d)) (d1 d) (modules s)"
  "calls (webpackJsonpCallback d s) =
     calls s @ (case d3 d of Some f \<Rightarrow> [CallRuntime f] | None \<Rightarrow> []) @ [CallParent d]
       @ map CallResolve (fst (flag_chunks (d0 d) [] (installedChunks s)))"
  by (simp_all add: webpackJsonpCallback_def Let_def case_prod_beta drain_fields split: option.splits)

lemma callback_store_other:
  "q \<notin> set (fst (flag_chunks (d0 d) [] (installedChunks s))) \<Longrightarrow>
   promise_store (webpackJsonpCallback d s) ! q = promise_store s ! q"
  by (simp add: webpackJsonpCallback_def Let_def case_prod_beta drain_other split: option.splits)

lemma callback_store_fulfils:
  "q \<in> set (fst (flag_chunks (d0 d) [] (installedChunks s))) \<Longrightarrow>
   q < length (promise_store s) \<Longrightarrow> promise_store s ! q = Pending \<Longrightarrow>
   promise_store (webpackJsonpCallback d s) ! q = Fulfilled"
  by (simp add: webpackJsonpCallback_def Let_def case_prod_beta drain_fulfils split: option.splits)

lemma callback_other:
  assumes "in_flight c p sid s" "c \<notin> set (d0 d)"
  shows "in_flight c p sid (webpackJsonpCallback d s)
         \<and> fetches c (webpackJsonpCallback d s) = fetches c s"
proof -
  have "p \<notin> set (fst (flag_chunks (d0 d) [] (installedChunks s)))"
  proof
    assume "p \<in> set (fst (flag_chunks (d0 d) [] (installedChunks s)))"
    then obtain c' where "c' \<in> set (d0 d)" "installedChunks s c' = Some (Loading p)"
      using flag_chunks_fst_set by fastforce
    then show False using assms by (auto simp: in_flight_def)
  qed
  then have "promise_store (webpackJsonpCallback d s) ! p = promise_store s ! p"
    by (rule callback_store_other)
  then show ?thesis using assms
    by (auto simp: in_flight_def callback_fields flag_chunks_snd entries_in_store_def fetches_def)
qed


lemma entries_request:
  assumes "entries_in_store s"
  shows "entries_in_store (snd (f_j c ps s))"
proof (cases "installedChunks s c")
  case None
  have "p < Suc (length (promise_store s))"
    if "installedChunks s c' = Some (Loading p)" for c' p
    using assms that by (auto simp: entries_in_store_def intro: less_SucI)
  then show ?thesis using None
    by (simp add: f_j_def Let_def entries_in_store_def)
next
  case (Some e)
  then show ?thesis using assms by (cases e) (simp_all add: f_j_def)
qed

lemma request_same:
  assumes "in_flight c p sid s"
  shows "f_j c ps s = (ps @ [p], s)"
  using assms by (simp add: f_j_def in_flight_def)

lemma request_other:
  assumes "in_flight c p sid s" "c' \<noteq> c"
  shows "in_flight c p sid (snd (f_j c' ps s)) \<and> fetches c (snd (f_j c' ps s)) = fetches c s"
proof (cases "installedChunks s c'")
  case None
  have "entries_in_store (snd (f_j c' ps s))"
    using assms entries_request by (simp add: in_flight_def)
  moreover have "p \<noteq> length (promise_store s)"
    using assms by (simp add: in_flight_def)
  ultimately show ?thesis using assms None
    by (simp add: f_j_def Let_def in_flight_def fetches_def nth_append)
next
  case (Some e)
  then show ?thesis using assms by (cases e) (simp_all add: f_j_def)
qed

lemma step_in_flight:
  assumes "in_flight c p sid s" "\<not> ends_load c a s"
  shows "in_flight c p sid (step a s) \<and> fetches c (step a s) = fetches c s"
proof (cases a)
  case (Request c')
  then show ?thesis using assms request_other [of c p sid s c' "[]"] request_same [of c p sid s "[]"]
    by (cases "c' = c") simp_all
next
  case (ScriptEvent sid' ty)
  then show ?thesis using assms onScriptComplete_other [of c p sid s sid' ty]
    by (simp add: script_event_def)
next
  case (TimerFires sid')
  then show ?thesis using assms onScriptComplete_other [of c p sid s sid' "''timeout''"]
    by (simp add: timer_fires_def)
next
  case (JsonpPush d)
  then show ?thesis using assms callback_other [of c p sid s d] by simp
qed

lemma run_in_flight:
  assumes "in_flight c p sid s" "undisturbed c acts s"
  shows "in_flight c p sid (run acts s) \<and> fetches c (run acts s) = fetches c s
         \<and> map snd (filter (\<lambda>r. fst r = c) (handed acts s))
             = replicate (count_list acts (Request c)) [p]"
  using assms
proof (induction acts arbitrary: s)
  case Nil
  then show ?case by simp
next
  case (Cons a acts)
  then have st: "in_flight c p sid (step a s)" "fetches c (step a s) = fetches c s"
    and rest: "undisturbed c acts (step a s)"
    using step_in_flight [of c p sid s a] by simp_all
  from Cons.IH [OF st(1) rest] st(2) show ?case
    using request_same [OF Cons.prems(1), of "[]"]
    by (cases a) auto
qed

lemma entries_onScriptComplete:
  assumes "entries_in_store s" "sid < length (scripts s)"
  shows "entries_in_store (onScriptComplete sid ty s)"
proof (cases "installedChunks s (chunk (scripts s ! sid))")
  case None
  then show ?thesis using assms
    by (auto simp: onScriptComplete_def loadingEnded_def Let_def entries_in_store_def)
next
  case (Some e)
  then show ?thesis using assms
    by (cases e) (auto simp: onScriptComplete_def loadingEnded_def Let_def entries_in_store_def reject_def)
qed

lemma entry_onScriptComplete:
  assumes "chunk (scripts s ! sid) \<noteq> c"
  shows "installedChunks (onScriptComplete sid ty s) c = installedChunks s c"
proof (cases "installedChunks s (chunk (scripts s ! sid))")
  case None
  then show ?thesis using assms
    by (auto simp: onScriptComplete_def loadingEnded_def Let_def)
next
  case (Some e)
  then show ?thesis using assms
    by (cases e) (auto simp: onScriptComplete_def loadingEnded_def Let_def reject_def)
qed

lemma fetches_onScriptComplete:
  assumes "sid < length (scripts s)"
  shows "fetches c (onScriptComplete sid ty s) = fetches c s"
proof -
  have "scripts (onScriptComplete sid ty s)
          = (scripts s)[sid := (scripts s ! sid)\<lparr>handlers := False, timer := None\<rparr>]"
    by (auto simp: onScriptComplete_def loadingEnded_def Let_def reject_def
             split: option.splits chunk_entry.splits)
  then show ?thesis using assms by (simp add: fetches_update)
qed

lemma entries_callback:
  assumes "entries_in_store s"
  shows "entries_in_store (webpackJsonpCallback d s)"
  using assms by (auto simp: entries_in_store_def callback_fields flag_chunks_snd split: if_splits)

lemma entries_in_store_step:
  assumes "entries_in_store s"
  shows "entries_in_store (step a s)"
proof (cases a)
  case (Request c)
  then show ?thesis using assms entries_request by simp
next
  case (ScriptEvent sid ty)
  then show ?thesis using assms entries_onScriptComplete by (simp add: script_event_def)
next
  case (TimerFires sid)
  then show ?thesis using assms entries_onScriptComplete by (simp add: timer_fires_def)
next
  case (JsonpPush d)
  then show ?thesis using assms entries_callback by simp
qed

lemma entries_in_store_reachable:
  "entries_in_store (run acts (initial_runtime ms))"
proof -
  have "entries_in_store s \<Longrightarrow> entries_in_store (run acts s)" for s
    by (induction acts arbitrary: s) (simp_all add: entries_in_store_step)
  moreover have "entries_in_store (initial_runtime ms)"
    by (simp add: entries_in_store_def initial_runtime_def)
  ultimately show ?thesis by simp
qed

lemma step_idle:
  assumes "idle c s" "\<not> ends_load c a s" "a \<noteq> Request c"
  shows "idle c (step a s) \<and> fetches c (step a s) = fetches c s"
proof (cases a)
  case (Request c')
  then have ne: "c' \<noteq> c" using assms by simp
  show ?thesis
  proof (cases "installedChunks s c'")
    case None
    have "entries_in_store (snd (f_j c' [] s))"
      using assms entries_request by (simp add: idle_def)
    then show ?thesis using assms ne Request None
      by (simp add: f_j_def Let_def idle_def fetches_def)
  next
    case (Some e)
    then show ?thesis using assms Request by (cases e) (simp_all add: f_j_def)
  qed
next
  case (ScriptEvent sid ty)
  then show ?thesis using assms
    by (auto simp: script_event_def idle_def entries_onScriptComplete entry_onScriptComplete
                   fetches_onScriptComplete)
next
  case (TimerFires sid)
  then show ?thesis using assms
    by (auto simp: timer_fires_def idle_def entries_onScriptComplete entry_onScriptComplete
                   fetches_onScriptComplete)
next
  case (JsonpPush d)
  then show ?thesis using assms
    by (auto simp: idle_def entries_callback callback_fields flag_chunks_snd fetches_def)
qed

lemma first_request:
  assumes "idle c s"
  shows "in_flight c (length (promise_store s)) (length (scripts s)) (step (Request c) s)
         \<and> fetches c (step (Request c) s) = fetches c s + 1
         \<and> fst (f_j c [] s) = [length (promise_store s)]"
proof -
  have "entries_in_store (snd (f_j c [] s))"
    using assms entries_request by (simp add: idle_def)
  moreover have "installedChunks s c' \<noteq> Some (Loading (length (promise_store s)))" for c'
    using assms by (auto simp: idle_def entries_in_store_def)
  ultimately show ?thesis using assms
    by (simp add: idle_def f_j_def Let_def in_flight_def fetches_def nth_append)
qed

lemma run_idle:
  assumes "idle c s" "undisturbed c acts s" "Request c \<in> set acts"
  shows "fetches c (run acts s) = fetches c s + 1
         \<and> (\<exists>p sid. in_flight c p sid (run acts s)
              \<and> map snd (filter (\<lambda>r. fst r = c) (handed acts s))
                   = replicate (count_list acts (Request c)) [p])"
  using assms
proof (induction acts arbitrary: s)
  case Nil
  then show ?case by simp
next
  case (Cons a acts)
  show ?case
  proof (cases "a = Request c")
    case True
    let ?p = "length (promise_store s)" and ?sid = "length (scripts s)"
    have fr: "in_flight c ?p ?sid (step a s)" "fetches c (step a s) = fetches c s + 1"
      "fst (f_j c [] s) = [?p]"
      using first_request [OF Cons.prems(1)] True by simp_all
    have rest: "undisturbed c acts (step a s)" using Cons.prems by simp
    from run_in_flight [OF fr(1) rest] fr(2,3) True show ?thesis
      by auto
  next
    case False
    then have st: "idle c (step a s)" "fetches c (step a s) = fetches c s"
      using step_idle [of c s a] Cons.prems by simp_all
    have rest: "undisturbed c acts (step a s)" "Request c \<in> set acts"
      using Cons.prems False by simp_all
    from Cons.IH [OF st(1) rest] st(2) False show ?thesis
      by (cases a) auto
  qed
qed


lemma entry_installed_onScriptComplete:
  assumes "installedChunks s c = Some Installed"
  shows "installedChunks (onScriptComplete sid ty s) c = Some Installed"
proof (cases "chunk (scripts s ! sid) = c")
  case True
  then show ?thesis using assms by (simp add: onScriptComplete_def loadingEnded_def Let_def)
next
  case False
  then show ?thesis using assms entry_onScriptComplete by simp
qed

lemma step_installed:
  assumes "installedChunks s c = Some Installed"
  shows "installedChunks (step a s) c = Some Installed \<and> fetches c (step a s) = fetches c s"
proof (cases a)
  case (Request c')
  show ?thesis
  proof (cases "c' = c")
    case True
    then show ?thesis using assms Request by (simp add: f_j_def)
  next
    case False
    then show ?thesis using assms Request
      by (auto simp: f_j_def Let_def fetches_def split: option.splits chunk_entry.splits)
  qed
next
  case (ScriptEvent sid ty)
  then show ?thesis using assms
    by (simp add: script_event_def entry_installed_onScriptComplete fetches_onScriptComplete)
next
  case (TimerFires sid)
  then show ?thesis using assms
    by (simp add: timer_fires_def entry_installed_onScriptComplete fetches_onScriptComplete)
next
  case (JsonpPush d)
  then show ?thesis using assms by (simp add: callback_fields flag_chunks_snd fetches_def)
qed

lemma run_installed:
  assumes "installedChunks s c = Some Installed"
  shows "fetches c (run acts s) = fetches c s
         \<and> (\<forall>r \<in> set (handed acts s). fst r = c \<longrightarrow> snd r = [])"
  using assms
proof (induction acts arbitrary: s)
  case Nil
  then show ?case by simp
next
  case (Cons a acts)
  have st: "installedChunks (step a s) c = Some Installed" "fetches c (step a s) = fetches c s"
    using step_installed [OF Cons.prems] by simp_all
  from Cons.IH [OF st(1)] st(2) Cons.prems show ?case
    by (cases a) (auto simp: f_j_def)
qed

lemma entry_after_onScriptComplete:
  "installedChunks (onScriptComplete sid ty s) c = installedChunks s c
   \<or> installedChunks (onScriptComplete sid ty s) c = None"
  by (auto simp: onScriptComplete_def loadingEnded_def Let_def reject_def
           split: option.splits chunk_entry.splits)

lemma loading_entered:
  assumes "installedChunks (step a s) c = Some (Loading q)"
    and "installedChunks s c \<noteq> Some (Loading q)"
  shows "installedChunks s c = None \<and> a = Request c"
proof (cases a)
  case (Request c')
  then show ?thesis using assms
    by (auto simp: f_j_def Let_def split: option.splits chunk_entry.splits if_splits)
next
  case (ScriptEvent sid ty)
  then show ?thesis using assms entry_after_onScriptComplete [of sid ty s c]
    by (auto simp: script_event_def split: if_splits)
next
  case (TimerFires sid)
  then show ?thesis using assms entry_after_onScriptComplete [of sid "''timeout''" s c]
    by (auto simp: timer_fires_def split: if_splits)
next
  case (JsonpPush d)
  then show ?thesis using assms by (auto simp: callback_fields flag_chunks_snd split: if_splits)
qed

text \<open>
  Claim C2. Take a chunk \<open>c\<close> that is not requested yet and any run in which \<open>c\<close> is
  requested at least once and nothing ends its load (no event or timer of a script that
  fetches \<open>c\<close>, no registration that lists \<open>c\<close>); requests for other chunks, their
  events and registrations may come in between. The run adds exactly one script for
  \<open>c\<close>, and every one of its requests for \<open>c\<close> gets back the array holding one and the
  same promise, which is still pending at the end of the run. Once \<open>c\<close> is installed,
  no run whatever adds a script for it, and a request for it gets back an empty array. And
  an action makes the entry of \<open>c\<close> a loading one only if it is a request for \<open>c\<close> and
  the entry was \<^verbatim>\<open>undefined\<close> before.
\<close>

theorem requests_start_one_fetch:
  "(installedChunks s c = None \<and> entries_in_store s \<and> undisturbed c acts s
      \<and> Request c \<in> set acts \<longrightarrow>
      fetches c (run acts s) = fetches c s + 1
      \<and> (\<exists>p. p < length (promise_store (run acts s))
             \<and> promise_store (run acts s) ! p = Pending
             \<and> map snd (filter (\<lambda>r. fst r = c) (handed acts s))
                  = replicate (count_list acts (Request c)) [p]))
   \<and> (installedChunks s c = Some Installed \<longrightarrow>
        fetches c (run later s) = fetches c s
        \<and> (\<forall>r \<in> set (handed later s). fst r = c \<longrightarrow> snd r = []))
   \<and> (installedChunks (step a s) c = Some (Loading q)
        \<and> installedChunks s c \<noteq> Some (Loading q) \<longrightarrow>
        installedChunks s c = None \<and> a = Request c)"
proof (intro conjI impI)
  assume h: "installedChunks s c = None \<and> entries_in_store s \<and> undisturbed c acts s
      \<and> Request c \<in> set acts"
  then have "idle c s" by (simp add: idle_def)
  from run_idle [OF this] h
  obtain p sid where f: "fetches c (run acts s) = fetches c s + 1"
    and i: "in_flight c p sid (run acts s)"
    and m: "map snd (filter (\<lambda>r. fst r = c) (handed acts s))
              = replicate (count_list acts (Request c)) [p]"
    by blast
  show "fetches c (run acts s) = fetches c s + 1" by (rule f)
  show "\<exists>p. p < length (promise_store (run acts s))
             \<and> promise_store (run acts s) ! p = Pending
             \<and> map snd (filter (\<lambda>r. fst r = c) (handed acts s))
                  = replicate (count_list acts (Request c)) [p]"
    using i m by (auto simp: in_flight_def)
next
  assume "installedChunks s c = Some Installed"
  then show "fetches c (run later s) = fetches c s"
    and "\<forall>r \<in> set (handed later s). fst r = c \<longrightarrow> snd r = []"
    using run_installed by blast+
next
  assume "installedChunks (step a s) c = Some (Loading q)
        \<and> installedChunks s c \<noteq> Some (Loading q)"
  then show "installedChunks s c = None" and "a = Request c"
    using loading_entered by blast+
qed

lemma completion_rejects:
  assumes "in_flight c p sid s"
  shows "promise_store (onScriptComplete sid ty s) ! p =
           Rejected \<lparr>message = ''Loading chunk '' @ string_of_nat c @ '' failed.''
                        @ [CHR ''\<newline>''] @ ''('' @ (if ty = ''load'' then ''missing'' else ty)
                        @ '': '' @ publicPath @ chunk_filename c @ '')'',
                     etype = (if ty = ''load'' then ''missing'' else ty),
                     request = publicPath @ chunk_filename c\<rparr>
         \<and> installedChunks (onScriptComplete sid ty s) c = Some (Loading p)"
  using assms
  by (simp add: in_flight_def onScriptComplete_def loadingEnded_def Let_def reject_def)

text \<open>
  Claim C6. A request for a chunk \<open>c\<close> that is not requested yet starts a script whose
  timer has the delay 120000, and hands out a new promise. If then nothing ends the load
  of \<open>c\<close> (neither a load nor an error event of that script, and no registration of
  \<open>c\<close>) the promise stays pending, and when the timer runs out the promise is rejected
  with an error whose \<^verbatim>\<open>type\<close> is \<^verbatim>\<open>timeout\<close>, whose \<^verbatim>\<open>request\<close> is the
  script's \<^verbatim>\<open>src\<close> and whose message names the chunk.
\<close>

theorem timeout_rejects_with_kind_timeout:
  "installedChunks s c = None \<and> entries_in_store s \<and> undisturbed c acts (step (Request c) s)
   \<longrightarrow> fst (f_j c [] s) = [length (promise_store s)]
       \<and> timer (scripts (step (Request c) s) ! length (scripts s)) = Some 120000
       \<and> chunk (scripts (step (Request c) s) ! length (scripts s)) = c
       \<and> promise_store (run acts (step (Request c) s)) ! length (promise_store s) = Pending
       \<and> promise_store (timer_fires (length (scripts s)) (run acts (step (Request c) s)))
           ! length (promise_store s)
         = Rejected \<lparr>message = ''Loading chunk '' @ string_of_nat c @ '' failed.''
                        @ [CHR ''\<newline>''] @ ''(timeout: '' @ publicPath @ chunk_filename c @ '')'',
                     etype = ''timeout'',
                     request = publicPath @ chunk_filename c\<rparr>"
proof
  assume h: "installedChunks s c = None \<and> entries_in_store s
             \<and> undisturbed c acts (step (Request c) s)"
  let ?p = "length (promise_store s)" and ?sid = "length (scripts s)"
  let ?s1 = "step (Request c) s"
  have "idle c s" using h by (simp add: idle_def)
  from first_request [OF this]
  have i1: "in_flight c ?p ?sid ?s1" and r: "fst (f_j c [] s) = [?p]" by simp_all
  from run_in_flight [OF i1] h have i2: "in_flight c ?p ?sid (run acts ?s1)" by simp
  have t: "timer_fires ?sid (run acts ?s1) = onScriptComplete ?sid ''timeout'' (run acts ?s1)"
    using i2 by (simp add: timer_fires_def in_flight_def)
  have "promise_store (timer_fires ?sid (run acts ?s1)) ! ?p
         = Rejected \<lparr>message = ''Loading chunk '' @ string_of_nat c @ '' failed.''
                        @ [CHR ''\<newline>''] @ ''(timeout: '' @ publicPath @ chunk_filename c @ '')'',
                     etype = ''timeout'',
                     request = publicPath @ chunk_filename c\<rparr>"
    unfolding t using completion_rejects [OF i2, of "''timeout''"] by simp
  then show "fst (f_j c [] s) = [length (promise_store s)]
       \<and> timer (scripts (step (Request c) s) ! length (scripts s)) = Some 120000
       \<and> chunk (scripts (step (Request c) s) ! length (scripts s)) = c
       \<and> promise_store (run acts (step (Request c) s)) ! length (promise_store s) = Pending
       \<and> promise_store (timer_fires (length (scripts s)) (run acts (step (Request c) s)))
           ! length (promise_store s)
         = Rejected \<lparr>message = ''Loading chunk '' @ string_of_nat c @ '' failed.''
                        @ [CHR ''\<newline>''] @ ''(timeout: '' @ publicPath @ chunk_filename c @ '')'',
                     etype = ''timeout'',
                     request = publicPath @ chunk_filename c\<rparr>"
    using r i1 i2 by (simp add: in_flight_def)
qed


subsection \<open>The registration callback\<close>

lemma add_modules_lookup:
  "add_modules ks mm m k =
     (if k \<in> set ks \<and> hasOwnProperty mm k then get_property mm k else m k)"
  by (induction ks arbitrary: m) auto

lemma own_key_listed: "hasOwnProperty mm k \<Longrightarrow> k \<in> set (for_in_keys mm)"
  by (simp add: hasOwnProperty_def for_in_keys_def)

lemma own_key_value: "hasOwnProperty mm k \<Longrightarrow> get_property mm k = map_of (own mm) k"
proof -
  assume "hasOwnProperty mm k"
  then have "map_of (own mm) k \<noteq> None"
    by (simp add: hasOwnProperty_def map_of_eq_None_iff)
  then show ?thesis by (auto simp: get_property_def)
qed

lemma callback_modules:
  "modules (webpackJsonpCallback d s) k =
     (if k \<in> set (map fst (own (d1 d))) then map_of (own (d1 d)) k else modules s k)"
proof (cases "hasOwnProperty (d1 d) k")
  case True
  then show ?thesis
    using own_key_listed [OF True] own_key_value [OF True]
    by (simp add: callback_fields add_modules_lookup hasOwnProperty_def)
next
  case False
  then show ?thesis
    by (simp add: callback_fields add_modules_lookup hasOwnProperty_def)
qed

text \<open>
  Claim C5, as amended. \<^verbatim>\<open>webpackJsonpCallback\<close> reads the chunk ids at index 0 of
  its argument, the module map at index 1 and the injector at index 3. After it every own
  entry of the module map is in \<^verbatim>\<open>__webpack_require__.m\<close> and no other entry of that
  table has changed (an inherited property is not copied); every listed chunk is installed
  and no other entry has changed. The calls it makes are, in this order: the injector of
  index 3 if there is one, \<^verbatim>\<open>parentJsonpFunction\<close>, and then the \<^verbatim>\<open>resolve\<close>
  functions of the listed chunks that were loading, one for each chunk, in the order in
  which the list first names the chunks. The promise of every listed chunk that was
  loading is among them, and is fulfilled if it was pending.
\<close>

theorem registration_callback:
  "(\<forall>k. modules (webpackJsonpCallback d s) k =
          (if k \<in> set (map fst (own (d1 d))) then map_of (own (d1 d)) k else modules s k))
   \<and> (\<forall>c. installedChunks (webpackJsonpCallback d s) c =
          (if c \<in> set (d0 d) then Some Installed else installedChunks s c))
   \<and> calls (webpackJsonpCallback d s) =
          calls s @ (case d3 d of Some f \<Rightarrow> [CallRuntime f] | None \<Rightarrow> [])
            @ [CallParent d] @ map CallResolve (waiting (installedChunks s) (d0 d))
   \<and> set (first_occurrences (d0 d)) = set (d0 d) \<and> distinct (first_occurrences (d0 d))
   \<and> (\<forall>c \<in> set (d0 d). \<forall>p. installedChunks s c = Some (Loading p) \<longrightarrow>
          p \<in> set (waiting (installedChunks s) (d0 d))
          \<and> (p < length (promise_store s) \<and> promise_store s ! p = Pending \<longrightarrow>
               promise_store (webpackJsonpCallback d s) ! p = Fulfilled))"
proof (intro conjI allI impI ballI)
  fix k
  show "modules (webpackJsonpCallback d s) k =
          (if k \<in> set (map fst (own (d1 d))) then map_of (own (d1 d)) k else modules s k)"
    by (rule callback_modules)
next
  fix c
  show "installedChunks (webpackJsonpCallback d s) c =
          (if c \<in> set (d0 d) then Some Installed else installedChunks s c)"
    by (simp add: callback_fields flag_chunks_snd)
next
  show "calls (webpackJsonpCallback d s) =
          calls s @ (case d3 d of Some f \<Rightarrow> [CallRuntime f] | None \<Rightarrow> [])
            @ [CallParent d] @ map CallResolve (waiting (installedChunks s) (d0 d))"
    by (simp add: callback_fields flag_chunks_fst)
next
  show "set (first_occurrences (d0 d)) = set (d0 d)"
    by (rule first_occurrences_set)
next
  show "distinct (first_occurrences (d0 d))"
    by (rule first_occurrences_distinct)
next
  fix c p
  assume c: "c \<in> set (d0 d)" and l: "installedChunks s c = Some (Loading p)"
  show w: "p \<in> set (waiting (installedChunks s) (d0 d))"
    using c l by (rule waiting_holds)
  assume "p < length (promise_store s) \<and> promise_store s ! p = Pending"
  then show "promise_store (webpackJsonpCallback d s) ! p = Fulfilled"
    using w callback_store_fulfils [of p d s] by (simp add: flag_chunks_fst)
qed

theorem registration_callback_witness:
  "installedChunks (run [Request 5, Request 3] (initial_runtime Map.empty)) 3 = Some (Loading 1)
   \<and> installedChunks (run [Request 5, Request 3] (initial_runtime Map.empty)) 5 = Some (Loading 0)
   \<and> promise_store (run [Request 5, Request 3] (initial_runtime Map.empty)) = [Pending, Pending]
   \<and> waiting (installedChunks (run [Request 5, Request 3] (initial_runtime Map.empty))) [3, 5, 3]
       = [1, 0]
   \<and> modules (webpackJsonpCallback
        \<lparr>d0 = [3, 5, 3], d1 = \<lparr>own = [(2, ''file.js'')], inherited = [(9, ''other'')]\<rparr>,
         d2 = None, d3 = Some 7\<rparr>
        (run [Request 5, Request 3] (initial_runtime Map.empty))) 2 = Some ''file.js''
   \<and> modules (webpackJsonpCallback
        \<lparr>d0 = [3, 5, 3], d1 = \<lparr>own = [(2, ''file.js'')], inherited = [(9, ''other'')]\<rparr>,
         d2 = None, d3 = Some 7\<rparr>
        (run [Request 5, Request 3] (initial_runtime Map.empty))) 9 = None
   \<and> installedChunks (webpackJsonpCallback
        \<lparr>d0 = [3, 5, 3], d1 = \<lparr>own = [(2, ''file.js'')], inherited = [(9, ''other'')]\<rparr>,
         d2 = None, d3 = Some 7\<rparr>
        (run [Request 5, Request 3] (initial_runtime Map.empty))) 3 = Some Installed
   \<and> calls (webpackJsonpCallback
        \<lparr>d0 = [3, 5, 3], d1 = \<lparr>own = [(2, ''file.js'')], inherited = [(9, ''other'')]\<rparr>,
         d2 = None, d3 = Some 7\<rparr>
        (run [Request 5, Request 3] (initial_runtime Map.empty)))
       = [CallRuntime 7,
          CallParent \<lparr>d0 = [3, 5, 3],
                      d1 = \<lparr>own = [(2, ''file.js'')], inherited = [(9, ''other'')]\<rparr>,
                      d2 = None, d3 = Some 7\<rparr>,
          CallResolve 1, CallResolve 0]
   \<and> promise_store (webpackJsonpCallback
        \<lparr>d0 = [3, 5, 3], d1 = \<lparr>own = [(2, ''file.js'')], inherited = [(9, ''other'')]\<rparr>,
         d2 = None, d3 = Some 7\<rparr>
        (run [Request 5, Request 3] (initial_runtime Map.empty))) = [Fulfilled, Fulfilled]"
  using registration_callback
    [of "\<lparr>d0 = [3, 5, 3], d1 = \<lparr>own = [(2, ''file.js'')], inherited = [(9, ''other'')]\<rparr>,
          d2 = None, d3 = Some 7\<rparr>"
        "run [Request 5, Request 3] (initial_runtime Map.empty)"]
  by (simp add: waiting_def initial_runtime_def f_j_def Let_def webpackJsonpCallback_def
        for_in_keys_def hasOwnProperty_def get_property_def resolve_def)

text \<open>
  Claim C5 as stated fails twice. For a tuple \<^verbatim>\<open>(chunkIds, moduleMap, runtime)\<close> an
  injector in the third place, index 2, is never called. And the callers are not resolved
  first in, first out: when chunk 5 is requested before chunk 3 and a registration lists
  3 before 5, the promise of the second request is resolved before that of the first.
\<close>

theorem index_2_injector_skipped_and_resolves_not_fifo:
  "CallRuntime 7 \<notin> set (calls (webpackJsonpCallback
      \<lparr>d0 = [396], d1 = \<lparr>own = [(2, ''file.js'')], inherited = []\<rparr>, d2 = Some 7, d3 = None\<rparr>
      (step (Request 396) (initial_runtime Map.empty))))
   \<and> handed [Request 5, Request 3] (initial_runtime Map.empty) = [(5, [0]), (3, [1])]
   \<and> calls (run [Request 5, Request 3,
                   JsonpPush \<lparr>d0 = [3, 5], d1 = \<lparr>own = [], inherited = []\<rparr>,
                              d2 = None, d3 = None\<rparr>]
              (initial_runtime Map.empty))
       = [CallParent \<lparr>d0 = [3, 5], d1 = \<lparr>own = [], inherited = []\<rparr>, d2 = None, d3 = None\<rparr>,
          CallResolve 1, CallResolve 0]"
  by (simp add: callback_fields flag_chunks_fst waiting_def initial_runtime_def f_j_def Let_def)

text \<open>
  Claim C1 does not hold of the runtime. After chunk 396 is requested and its script
  reports an error, or its timer runs out, the promise is rejected but the entry of the
  chunk is still the loading one: \<^verbatim>\<open>loadingEnded\<close> returns at its first statement, and
  the statement that stores \<^verbatim>\<open>undefined\<close> is not reached. The next request for 396 is
  handed the rejected promise, and no second script is added.
\<close>

theorem failed_load_keeps_loading_entry:
  "installedChunks (run [Request 396, ScriptEvent 0 ''error''] (initial_runtime Map.empty)) 396
     = Some (Loading 0)
   \<and> promise_store (run [Request 396, ScriptEvent 0 ''error''] (initial_runtime Map.empty))
     = [Rejected \<lparr>message = ''Loading chunk 396 failed.'' @ [CHR ''\<newline>'']
                     @ ''(error: dist/396.output.js)'',
                   etype = ''error'', request = ''dist/396.output.js''\<rparr>]
   \<and> handed [Request 396, ScriptEvent 0 ''error'', Request 396] (initial_runtime Map.empty)
     = [(396, [0]), (396, [0])]
   \<and> fetches 396 (run [Request 396, ScriptEvent 0 ''error'', Request 396]
                      (initial_runtime Map.empty)) = 1
   \<and> installedChunks (run [Request 396, TimerFires 0] (initial_runtime Map.empty)) 396
     = Some (Loading 0)
   \<and> handed [Request 396, TimerFires 0, Request 396] (initial_runtime Map.empty)
     = [(396, [0]), (396, [0])]
   \<and> fetches 396 (run [Request 396, TimerFires 0, Request 396]
                      (initial_runtime Map.empty)) = 1"
  by (simp add: initial_runtime_def f_j_def script_event_def timer_fires_def onScriptComplete_def
      loadingEnded_def reject_def fetches_def publicPath_def chunk_filename_def
      string_of_nat.simps digit_def Let_def)

theorem requests_start_one_fetch_witness:
  "installedChunks (initial_runtime Map.empty) 396 = None
   \<and> entries_in_store (initial_runtime Map.empty)
   \<and> undisturbed 396 [Request 396, Request 7, Request 396] (initial_runtime Map.empty)
   \<and> Request 396 \<in> set [Request 396, Request 7, Request 396]
   \<and> fetches 396 (run [Request 396, Request 7, Request 396] (initial_runtime Map.empty)) = 1
   \<and> handed [Request 396, Request 7, Request 396] (initial_runtime Map.empty)
       = [(396, [0]), (7, [1]), (396, [0])]
   \<and> installedChunks (initial_runtime Map.empty) 404 = Some Installed
   \<and> fetches 404 (run [Request 404, Request 404] (initial_runtime Map.empty)) = 0
   \<and> handed [Request 404, Request 404] (initial_runtime Map.empty) = [(404, []), (404, [])]
   \<and> installedChunks (step (Request 396) (initial_runtime Map.empty)) 396 = Some (Loading 0)
   \<and> installedChunks (initial_runtime Map.empty) 396 \<noteq> Some (Loading 0)"
  using requests_start_one_fetch
    [of "initial_runtime Map.empty" 396 "[Request 396, Request 7, Request 396]" "[]"
        "Request 396" 0]
    requests_start_one_fetch
    [of "initial_runtime Map.empty" 404 "[]" "[Request 404, Request 404]" "Request 396" 0]
  by (simp add: initial_runtime_def entries_in_store_def f_j_def fetches_def Let_def)

theorem timeout_rejects_with_kind_timeout_witness:
  "installedChunks (initial_runtime Map.empty) 396 = None
   \<and> entries_in_store (initial_runtime Map.empty)
   \<and> undisturbed 396 [Request 396, Request 7, ScriptEvent 1 ''error'']
        (step (Request 396) (initial_runtime Map.empty))
   \<and> promise_store (timer_fires 0 (run [Request 396, Request 7, ScriptEvent 1 ''error'']
        (step (Request 396) (initial_runtime Map.empty)))) ! 0
     = Rejected \<lparr>message = ''Loading chunk 396 failed.'' @ [CHR ''\<newline>'']
                    @ ''(timeout: dist/396.output.js)'',
                  etype = ''timeout'', request = ''dist/396.output.js''\<rparr>"
  using timeout_rejects_with_kind_timeout
    [of "initial_runtime Map.empty" 396 "[Request 396, Request 7, ScriptEvent 1 ''error'']"]
  by (simp add: initial_runtime_def entries_in_store_def f_j_def script_event_def Let_def
      publicPath_def chunk_filename_def string_of_nat.simps digit_def)



section \<open>Properties of the bundle-loader wrapper\<close>

lemma register_all_buffers:
  "cbs w = Some l \<Longrightarrow> register_all xs w = w\<lparr>cbs := Some (l @ xs)\<rparr>"
  by (induction xs arbitrary: w l) (simp_all add: register_def)

lemma register_all_calls:
  "cbs w = None \<Longrightarrow> register_all xs w = w\<lparr>fired := fired w @ map (\<lambda>cb. (cb, data w)) xs\<rparr>"
  by (induction xs arbitrary: w) (simp_all add: register_def)

lemma call_each_calls:
  "call_each xs w = w\<lparr>fired := fired w @ map (\<lambda>cb. (cb, data w)) xs\<rparr>"
  by (induction xs arbitrary: w) simp_all

text \<open>
  Claim C7. Callbacks registered before the chunk resolves are kept, in the order of
  registration, in \<^verbatim>\<open>cbs\<close> and none is called. When the chunk resolves with the exports
  \<open>v\<close>, they are called in that order, each with \<open>v\<close>. Callbacks registered afterwards
  are called as well, each with the kept value \<open>v\<close>, so that all callbacks are called,
  in the order of registration.
\<close>

theorem callbacks_fire_in_registration_order:
  "register_all before (wrapper_init :: ('cb, 'v) wrapper)
       = \<lparr>cbs = Some before, data = None, fired = []\<rparr>
   \<and> chunk_loaded (v :: 'v) (register_all before wrapper_init)
       = Inr \<lparr>cbs = None, data = Some v, fired = map (\<lambda>cb. (cb, Some v)) before\<rparr>
   \<and> register_all after \<lparr>cbs = None, data = Some v, fired = map (\<lambda>cb. (cb, Some v)) before\<rparr>
       = \<lparr>cbs = None, data = Some v, fired = map (\<lambda>cb. (cb, Some v)) (before @ after)\<rparr>"
  by (simp add: register_all_buffers [where l = "[]"] wrapper_init_def chunk_loaded_def
      call_each_calls register_all_calls)

theorem callbacks_fire_in_registration_order_witness:
  "register_all [1::nat, 2] (wrapper_init :: (nat, string) wrapper)
       = \<lparr>cbs = Some [1, 2], data = None, fired = []\<rparr>
   \<and> chunk_loaded ''It works'' (register_all [1::nat, 2] wrapper_init)
       = Inr \<lparr>cbs = None, data = Some ''It works'',
              fired = [(1, Some ''It works''), (2, Some ''It works'')]\<rparr>
   \<and> register_all [3, 4] \<lparr>cbs = None, data = Some ''It works'',
              fired = [(1::nat, Some ''It works''), (2, Some ''It works'')]\<rparr>
       = \<lparr>cbs = None, data = Some ''It works'',
          fired = [(1, Some ''It works''), (2, Some ''It works''),
                   (3, Some ''It works''), (4, Some ''It works'')]\<rparr>"
  using callbacks_fire_in_registration_order [of "[1::nat, 2]" "''It works''" "[3, 4]"]
  by (simp add: register_def wrapper_init_def chunk_loaded_def)

section \<open>Properties of the id options\<close>

text \<open>
  Claim C9 as stated fails: with \<^verbatim>\<open>moduleIds: false\<close> no error is raised and no plugin
  that assigns module ids is applied.
\<close>

theorem false_moduleIds_is_accepted:
  "apply_id_options (OBool False) (OString ''natural'') [] = Inr [NaturalChunkIdsPlugin]"
  by (simp add: apply_id_options_def apply_moduleIds_def apply_chunkIds_def)

lemma moduleIds_strategy:
  "strategy_of moduleIds_strategies m =
     (if m = OString ''natural'' then Some [NaturalModuleIdsPlugin]
      else if m = OString ''named'' then Some [NamedModuleIdsPlugin]
      else if m = OString ''hashed'' then
        Some [WarnDeprecatedOptionPlugin ''optimization.moduleIds'' ''hashed'' ''deterministic'',
              HashedModuleIdsPlugin]
      else if m = OString ''deterministic'' then Some [DeterministicModuleIdsPlugin]
      else if m = OString ''size'' then Some [OccurrenceModuleIdsPlugin True]
      else None)"
  by (cases m) (auto simp: moduleIds_strategies_def)

lemma chunkIds_strategy:
  "strategy_of chunkIds_strategies c =
     (if c = OString ''natural'' then Some [NaturalChunkIdsPlugin]
      else if c = OString ''named'' then Some [NamedChunkIdsPlugin]
      else if c = OString ''deterministic'' then Some [DeterministicChunkIdsPlugin]
      else if c = OString ''size'' then Some [OccurrenceChunkIdsPlugin True]
      else if c = OString ''total-size'' then Some [OccurrenceChunkIdsPlugin False]
      else None)"
  by (cases c) (auto simp: chunkIds_strategies_def)

lemma moduleIds_known:
  "strategy_of moduleIds_strategies m \<noteq> None \<Longrightarrow>
   m = OString ''natural'' \<or> m = OString ''named'' \<or> m = OString ''hashed''
   \<or> m = OString ''deterministic'' \<or> m = OString ''size''"
  by (simp add: moduleIds_strategy split: if_splits)

lemma chunkIds_known:
  "strategy_of chunkIds_strategies c \<noteq> None \<Longrightarrow>
   c = OString ''natural'' \<or> c = OString ''named'' \<or> c = OString ''deterministic''
   \<or> c = OString ''size'' \<or> c = OString ''total-size''"
  by (simp add: chunkIds_strategy split: if_splits)

lemma moduleIds_applied:
  assumes "\<not> truthy_option m \<or> strategy_of moduleIds_strategies m \<noteq> None"
  shows "apply_moduleIds m compiler = Inr (compiler @ plugins_for moduleIds_strategies m)
      \<and> length (filter assigns_module_ids (plugins_for moduleIds_strategies m))
          = (if truthy_option m then 1 else 0)
      \<and> filter assigns_chunk_ids (plugins_for moduleIds_strategies m) = []"
proof (cases "truthy_option m")
  case False
  then show ?thesis by (simp add: apply_moduleIds_def plugins_for_def)
next
  case True
  then have "m = OString ''natural'' \<or> m = OString ''named'' \<or> m = OString ''hashed''
     \<or> m = OString ''deterministic'' \<or> m = OString ''size''"
    using assms moduleIds_known by blast
  then show ?thesis
    by (elim disjE) (simp_all add: apply_moduleIds_def plugins_for_def moduleIds_strategies_def)
qed

lemma chunkIds_applied:
  assumes "\<not> truthy_option c \<or> strategy_of chunkIds_strategies c \<noteq> None"
  shows "apply_chunkIds c compiler = Inr (compiler @ plugins_for chunkIds_strategies c)
      \<and> length (filter assigns_chunk_ids (plugins_for chunkIds_strategies c))
          = (if truthy_option c then 1 else 0)
      \<and> filter assigns_module_ids (plugins_for chunkIds_strategies c) = []"
proof (cases "truthy_option c")
  case False
  then show ?thesis by (simp add: apply_chunkIds_def plugins_for_def)
next
  case True
  then have "c = OString ''natural'' \<or> c = OString ''named'' \<or> c = OString ''deterministic''
     \<or> c = OString ''size'' \<or> c = OString ''total-size''"
    using assms chunkIds_known by blast
  then show ?thesis
    by (elim disjE) (simp_all add: apply_chunkIds_def plugins_for_def chunkIds_strategies_def)
qed

lemma moduleIds_refused:
  "truthy_option m \<and> strategy_of moduleIds_strategies m = None \<Longrightarrow>
   apply_moduleIds m compiler =
     Inl (Error (''webpack bug: moduleIds: '' @ option_text m @ '' is not implemented''))"
  by (auto simp: apply_moduleIds_def moduleIds_strategy split: if_splits)

lemma chunkIds_refused:
  "truthy_option c \<and> strategy_of chunkIds_strategies c = None \<Longrightarrow>
   apply_chunkIds c compiler =
     Inl (Error (''webpack bug: chunkIds: '' @ option_text c @ '' is not implemented''))"
  by (auto simp: apply_chunkIds_def chunkIds_strategy split: if_splits)

text \<open>
  Claim C9, as amended. \<^verbatim>\<open>moduleIds\<close> knows natural, named, hashed, deterministic
  and size; \<^verbatim>\<open>chunkIds\<close> knows natural, named, deterministic, size and total-size. A
  truthy value that the option does not know makes the processing throw, \<^verbatim>\<open>moduleIds\<close>
  first. Otherwise the plugins applied are those the tables give for the truthy options,
  those of \<^verbatim>\<open>moduleIds\<close> first, and nothing for a falsy option; among them exactly one
  assigns module ids if \<^verbatim>\<open>moduleIds\<close> is truthy and none if it is falsy, and exactly
  one assigns chunk ids if \<^verbatim>\<open>chunkIds\<close> is truthy and none if it is falsy.
\<close>

theorem id_options_apply_one_plugin_each:
  "(truthy_option m \<and> strategy_of moduleIds_strategies m = None \<longrightarrow>
      apply_id_options m c compiler =
        Inl (Error (''webpack bug: moduleIds: '' @ option_text m @ '' is not implemented'')))
   \<and> ((\<not> truthy_option m \<or> strategy_of moduleIds_strategies m \<noteq> None)
        \<and> truthy_option c \<and> strategy_of chunkIds_strategies c = None \<longrightarrow>
      apply_id_options m c compiler =
        Inl (Error (''webpack bug: chunkIds: '' @ option_text c @ '' is not implemented'')))
   \<and> ((\<not> truthy_option m \<or> strategy_of moduleIds_strategies m \<noteq> None)
        \<and> (\<not> truthy_option c \<or> strategy_of chunkIds_strategies c \<noteq> None) \<longrightarrow>
      apply_id_options m c compiler =
        Inr (compiler @ plugins_for moduleIds_strategies m @ plugins_for chunkIds_strategies c)
      \<and> length (filter assigns_module_ids
           (plugins_for moduleIds_strategies m @ plugins_for chunkIds_strategies c))
          = (if truthy_option m then 1 else 0)
      \<and> length (filter assigns_chunk_ids
           (plugins_for moduleIds_strategies m @ plugins_for chunkIds_strategies c))
          = (if truthy_option c then 1 else 0))"
proof -
  show ?thesis
  proof (intro conjI impI)
    assume "truthy_option m \<and> strategy_of moduleIds_strategies m = None"
    then show "apply_id_options m c compiler =
        Inl (Error (''webpack bug: moduleIds: '' @ option_text m @ '' is not implemented''))"
      using moduleIds_refused [of m compiler] by (simp add: apply_id_options_def)
  next
    assume "(\<not> truthy_option m \<or> strategy_of moduleIds_strategies m \<noteq> None)
        \<and> truthy_option c \<and> strategy_of chunkIds_strategies c = None"
    then show "apply_id_options m c compiler =
        Inl (Error (''webpack bug: chunkIds: '' @ option_text c @ '' is not implemented''))"
      using moduleIds_applied [of m compiler]
        chunkIds_refused [of c "compiler @ plugins_for moduleIds_strategies m"]
      by (simp add: apply_id_options_def)
  next
    assume k: "(\<not> truthy_option m \<or> strategy_of moduleIds_strategies m \<noteq> None)
        \<and> (\<not> truthy_option c \<or> strategy_of chunkIds_strategies c \<noteq> None)"
    then show "apply_id_options m c compiler =
        Inr (compiler @ plugins_for moduleIds_strategies m @ plugins_for chunkIds_strategies c)"
      using moduleIds_applied [of m compiler]
        chunkIds_applied [of c "compiler @ plugins_for moduleIds_strategies m"]
      by (simp add: apply_id_options_def)
    show "length (filter assigns_module_ids
           (plugins_for moduleIds_strategies m @ plugins_for chunkIds_strategies c))
          = (if truthy_option m then 1 else 0)"
      using k moduleIds_applied [of m compiler] chunkIds_applied [of c compiler] by simp
    show "length (filter assigns_chunk_ids
           (plugins_for moduleIds_strategies m @ plugins_for chunkIds_strategies c))
          = (if truthy_option c then 1 else 0)"
      using k moduleIds_applied [of m compiler] chunkIds_applied [of c compiler] by simp
  qed
qed

theorem id_options_apply_one_plugin_each_witness:
  "truthy_option (OString ''occurrence'')
   \<and> strategy_of moduleIds_strategies (OString ''occurrence'') = None
   \<and> apply_id_options (OString ''occurrence'') (OString ''natural'') []
       = Inl (Error ''webpack bug: moduleIds: occurrence is not implemented'')
   \<and> strategy_of moduleIds_strategies (OString ''hashed'')
       = Some [WarnDeprecatedOptionPlugin ''optimization.moduleIds'' ''hashed'' ''deterministic'',
               HashedModuleIdsPlugin]
   \<and> truthy_option (OString ''hashed'')
   \<and> strategy_of chunkIds_strategies (OString ''hashed'') = None
   \<and> apply_id_options (OString ''hashed'') (OString ''hashed'') []
       = Inl (Error ''webpack bug: chunkIds: hashed is not implemented'')
   \<and> strategy_of chunkIds_strategies (OString ''total-size'') = Some [OccurrenceChunkIdsPlugin False]
   \<and> apply_id_options (OString ''hashed'') (OString ''total-size'') []
       = Inr [WarnDeprecatedOptionPlugin ''optimization.moduleIds'' ''hashed'' ''deterministic'',
              HashedModuleIdsPlugin, OccurrenceChunkIdsPlugin False]
   \<and> apply_id_options (OString ''size'') (OString ''size'') []
       = Inr [OccurrenceModuleIdsPlugin True, OccurrenceChunkIdsPlugin True]
   \<and> \<not> truthy_option OUndefined
   \<and> apply_id_options OUndefined OUndefined [] = Inr []"
  using id_options_apply_one_plugin_each [of "OString ''occurrence''" "OString ''natural''" "[]"]
    id_options_apply_one_plugin_each [of "OString ''hashed''" "OString ''hashed''" "[]"]
    id_options_apply_one_plugin_each [of "OString ''hashed''" "OString ''total-size''" "[]"]
    id_options_apply_one_plugin_each [of "OString ''size''" "OString ''size''" "[]"]
    id_options_apply_one_plugin_each [of OUndefined OUndefined "[]"]
  by (simp add: apply_id_options_def apply_moduleIds_def apply_chunkIds_def
        moduleIds_strategies_def chunkIds_strategies_def plugins_for_def)



section \<open>Properties of LibManifestPlugin\<close>

text \<open>
  Claim C10. A chunk whose \<^verbatim>\<open>isOnlyInitial()\<close> is false makes the plugin do nothing
  on the output file system, whatever the options, \<^verbatim>\<open>entryOnly\<close> among them, are; so
  a manifest is written for a chunk only if its \<^verbatim>\<open>isOnlyInitial()\<close> is true, and in
  a compilation each chunk for which it is false contributes no operation.
\<close>

theorem manifest_only_for_initial_chunks:
  "(\<not> isOnlyInitial c \<longrightarrow> emit_chunk dirname mkdirp_fails opts c = [])
   \<and> ((\<exists>op \<in> set (emit_chunk dirname mkdirp_fails opts c). is_write op) \<longrightarrow> isOnlyInitial c)
   \<and> (\<forall>i < length chunks. \<not> isOnlyInitial (chunks ! i) \<longrightarrow>
         emit_manifests dirname mkdirp_fails opts chunks ! i = [])"
proof (intro conjI impI allI)
  assume "\<not> isOnlyInitial c"
  then show "emit_chunk dirname mkdirp_fails opts c = []"
    by (simp add: emit_chunk_def)
next
  assume "\<exists>op \<in> set (emit_chunk dirname mkdirp_fails opts c). is_write op"
  then have "emit_chunk dirname mkdirp_fails opts c \<noteq> []"
    by auto
  then show "isOnlyInitial c"
    by (auto simp: emit_chunk_def split: if_splits)
next
  fix i
  assume "i < length chunks" and "\<not> isOnlyInitial (chunks ! i)"
  then show "emit_manifests dirname mkdirp_fails opts chunks ! i = []"
    by (simp add: emit_manifests_def emit_chunk_def)
qed

theorem manifest_only_for_initial_chunks_witness:
  "\<not> isOnlyInitial \<lparr>isOnlyInitial = False, orderedModules = [],
                      targetPath = ''dist/async.json'', namePath = ''async''\<rparr>
   \<and> emit_chunk (\<lambda>p. ''dist'') (\<lambda>d. False)
        \<lparr>opt_name = None, opt_type = JUndefined, opt_entryOnly = True, opt_format = False\<rparr>
        \<lparr>isOnlyInitial = False, orderedModules = [],
         targetPath = ''dist/async.json'', namePath = ''async''\<rparr> = []
   \<and> emit_chunk (\<lambda>p. ''dist'') (\<lambda>d. False)
        \<lparr>opt_name = None, opt_type = JUndefined, opt_entryOnly = False, opt_format = False\<rparr>
        \<lparr>isOnlyInitial = False, orderedModules = [],
         targetPath = ''dist/async.json'', namePath = ''async''\<rparr> = []
   \<and> emit_chunk (\<lambda>p. ''dist'') (\<lambda>d. False)
        \<lparr>opt_name = None, opt_type = JUndefined, opt_entryOnly = False, opt_format = False\<rparr>
        \<lparr>isOnlyInitial = True, orderedModules = [],
         targetPath = ''dist/main.json'', namePath = ''main''\<rparr>
       = [Mkdirp ''dist'', WriteFile ''dist/main.json'' False (JObj [(''content'', JObj [])])]
   \<and> emit_manifests (\<lambda>p. ''dist'') (\<lambda>d. False)
        \<lparr>opt_name = None, opt_type = JUndefined, opt_entryOnly = False, opt_format = False\<rparr>
        [\<lparr>isOnlyInitial = True, orderedModules = [],
          targetPath = ''dist/main.json'', namePath = ''main''\<rparr>,
         \<lparr>isOnlyInitial = False, orderedModules = [],
          targetPath = ''dist/async.json'', namePath = ''async''\<rparr>] ! 1 = []"
  using manifest_only_for_initial_chunks
    [of "\<lparr>isOnlyInitial = False, orderedModules = [],
          targetPath = ''dist/async.json'', namePath = ''async''\<rparr>"
        "\<lambda>p. ''dist''" "\<lambda>d. False"
        "\<lparr>opt_name = None, opt_type = JUndefined, opt_entryOnly = True, opt_format = False\<rparr>"
        "[]"]
    manifest_only_for_initial_chunks
    [of "\<lparr>isOnlyInitial = True, orderedModules = [],
          targetPath = ''dist/main.json'', namePath = ''main''\<rparr>"
        "\<lambda>p. ''dist''" "\<lambda>d. False"
        "\<lparr>opt_name = None, opt_type = JUndefined, opt_entryOnly = False, opt_format = False\<rparr>"
        "[\<lparr>isOnlyInitial = True, orderedModules = [],
           targetPath = ''dist/main.json'', namePath = ''main''\<rparr>,
          \<lparr>isOnlyInitial = False, orderedModules = [],
           targetPath = ''dist/async.json'', namePath = ''async''\<rparr>]"]
  by (simp add: emit_chunk_def emit_manifests_def manifest_def manifest_content_def)

lemma insert_index_set:
  "set (insert_index k v ps) = insert (k, v) (set ps)"
  by (induction ps) auto

lemma insert_index_map_of:
  "k \<notin> fst ` set ps \<Longrightarrow> map_of (insert_index k v ps) = (map_of ps)(k \<mapsto> v)"
proof (induction ps)
  case Nil
  then show ?case by simp
next
  case (Cons kv ps)
  then have "fst kv \<noteq> k" and "map_of (insert_index k v ps) = (map_of ps)(k \<mapsto> v)"
    by auto
  then show ?case by (cases kv) (auto simp: fun_upd_twist)
qed

lemma append_map_of:
  "k \<notin> fst ` set ps \<Longrightarrow> map_of (ps @ [(k, v)]) = (map_of ps)(k \<mapsto> v)"
  by (induction ps) (auto simp: fun_upd_twist)

lemma js_assign_map_of:
  "map_of (js_assign k v ps) = (map_of ps)(k \<mapsto> v)"
proof (cases "k \<in> fst ` set ps")
  case True
  then show ?thesis by (simp add: js_assign_def update_conv')
next
  case False
  then show ?thesis
    using insert_index_map_of [of k ps v] append_map_of [of k ps v]
    by (simp only: js_assign_def set_map if_False split: if_split) simp
qed

lemma update_members:
  "x \<in> set (AList.update k v al) \<Longrightarrow> x = (k, v) \<or> x \<in> set al"
  by (induction al) (auto split: if_splits)

lemma js_assign_members:
  "x \<in> set (js_assign k v ps) \<Longrightarrow> x = (k, v) \<or> x \<in> set ps"
  using update_members [of x k v ps]
  by (auto simp: js_assign_def insert_index_set split: if_splits)

lemma js_assign_keys:
  "fst ` set (js_assign k v ps) = insert k (fst ` set ps)"
  by (simp add: js_assign_def dom_update insert_index_set insert_absorb)

lemma collect_items_map_of:
  "map_of (collect_items items obj) k = Some v \<Longrightarrow>
   Some (k, v) \<in> set items \<or> map_of obj k = Some v"
proof (induction items arbitrary: obj)
  case Nil
  then show ?case by simp
next
  case (Cons it items)
  show ?case
  proof (cases it)
    case None
    then show ?thesis using Cons by auto
  next
    case (Some item)
    with Cons.prems have "map_of (collect_items items (js_assign (fst item) (snd item) obj)) k = Some v"
      by simp
    from Cons.IH [OF this] show ?thesis using Some
      by (auto simp: js_assign_map_of split: if_splits)
  qed
qed

lemma collect_items_has_key:
  "(\<exists>v. Some (k, v) \<in> set items) \<or> k \<in> fst ` set obj \<Longrightarrow>
   k \<in> fst ` set (collect_items items obj)"
proof (induction items arbitrary: obj)
  case Nil
  then show ?case by simp
next
  case (Cons it items)
  show ?case
  proof (cases it)
    case None
    then show ?thesis using Cons by auto
  next
    case (Some item)
    have "(\<exists>v. Some (k, v) \<in> set items) \<or> k \<in> fst ` set (js_assign (fst item) (snd item) obj)"
      using Cons.prems Some by (auto simp: js_assign_keys)
    from Cons.IH [OF this] show ?thesis using Some by simp
  qed
qed

lemma collect_items_members:
  "x \<in> set (collect_items items obj) \<Longrightarrow> Some x \<in> set items \<or> x \<in> set obj"
proof (induction items arbitrary: obj)
  case Nil
  then show ?case by simp
next
  case (Cons it items)
  show ?case
  proof (cases it)
    case None
    then show ?thesis using Cons by auto
  next
    case (Some item)
    with Cons.prems have "x \<in> set (collect_items items (js_assign (fst item) (snd item) obj))"
      by simp
    from Cons.IH [OF this] show ?thesis using Some js_assign_members [of x "fst item" "snd item" obj]
      by auto
  qed
qed

lemma manifest_item_data:
  assumes "manifest_item opts m = Some (ident, d)"
  shows "libIdent m = Some ident \<and> ident \<noteq> []
         \<and> d = JObj [(''id'', moduleId m), (''buildMeta'', buildMeta m),
                     (''exports'', if isArray (providedExports m) then providedExports m
                                   else JUndefined)]"
  using assms by (auto simp: manifest_item_def split: if_splits option.splits)

lemma content_defined:
  "x \<in> set (manifest_content opts c) \<Longrightarrow> snd x \<noteq> JUndefined"
proof -
  assume "x \<in> set (manifest_content opts c)"
  then have "Some x \<in> set (map (manifest_item opts) (orderedModules c))"
    using collect_items_members [of x "map (manifest_item opts) (orderedModules c)" "[]"]
    by (auto simp: manifest_content_def)
  then obtain m where "manifest_item opts m = Some (fst x, snd x)" by auto
  then show ?thesis using manifest_item_data by fastforce
qed

lemma stringify_props_map_of:
  "(\<forall>x \<in> set ps. snd x \<noteq> JUndefined) \<Longrightarrow>
   map_of (stringify_props ps) k = map_option stringify (map_of ps k)"
  by (induction ps) auto

lemma stringify_props_keys:
  "(\<forall>x \<in> set ps. snd x \<noteq> JUndefined) \<Longrightarrow> map fst (stringify_props ps) = map fst ps"
  by (induction ps) auto

lemma written_content:
  "js_member (stringify (manifest opts c)) ''content''
     = JObj (stringify_props (manifest_content opts c))"
  by (simp add: manifest_def)

text \<open>
  Claim C3 as stated fails: a module whose provided exports are not an array (here
  \<^verbatim>\<open>true\<close>) gets \<^verbatim>\<open>exports: undefined\<close>, which \<^verbatim>\<open>JSON.stringify\<close> leaves out, so
  its entry in the written manifest has no \<^verbatim>\<open>exports\<close> at all.
\<close>

theorem unknown_exports_are_left_out:
  "\<not> has_key
       (written_entry
          \<lparr>opt_name = None, opt_type = JUndefined, opt_entryOnly = False, opt_format = False\<rparr>
          \<lparr>isOnlyInitial = True,
           orderedModules = [\<lparr>moduleId = JNum 1, buildMeta = JObj [],
                              libIdent = Some ''./a.js'', providedExports = JBool True,
                              incoming_entry = [True]\<rparr>],
           targetPath = ''dist/manifest.json'', namePath = ''main''\<rparr>
          ''./a.js'')
       ''exports''"
  by (simp add: written_entry_def manifest_def manifest_content_def manifest_item_def
      js_assign_def is_array_index_def is_digit_def)

text \<open>
  Claim C3, as amended. Every module of the chunk that the plugin does not skip has its
  library identity among the keys of the written \<^verbatim>\<open>content\<close>. Every key of the written
  \<^verbatim>\<open>content\<close> is the library identity of a module of the chunk, and its entry holds,
  in this order, \<^verbatim>\<open>id\<close> and \<^verbatim>\<open>buildMeta\<close> of that module (each unless it is
  \<^verbatim>\<open>undefined\<close>) and, only if the module's provided exports are an array, \<^verbatim>\<open>exports\<close>
  with that array; when they are not an array the entry has no \<^verbatim>\<open>exports\<close>.
\<close>

theorem manifest_entries:
  "(\<forall>m \<in> set (orderedModules c). \<forall>ident d. manifest_item opts m = Some (ident, d) \<longrightarrow>
       libIdent m = Some ident
       \<and> has_key (js_member (stringify (manifest opts c)) ''content'') ident)
   \<and> (\<forall>ident. has_key (js_member (stringify (manifest opts c)) ''content'') ident \<longrightarrow>
        (\<exists>m \<in> set (orderedModules c).
           libIdent m = Some ident
           \<and> written_entry opts c ident =
               JObj ((if moduleId m = JUndefined then [] else [(''id'', stringify (moduleId m))])
                     @ (if buildMeta m = JUndefined then []
                        else [(''buildMeta'', stringify (buildMeta m))])
                     @ (if isArray (providedExports m)
                        then [(''exports'', stringify (providedExports m))] else []))))"
proof (intro conjI ballI allI impI)
  fix m ident d
  assume m: "m \<in> set (orderedModules c)" and it: "manifest_item opts m = Some (ident, d)"
  show "libIdent m = Some ident" using manifest_item_data [OF it] by simp
  have "ident \<in> fst ` set (manifest_content opts c)"
    unfolding manifest_content_def
    by (rule collect_items_has_key) (use m it in force)
  then show "has_key (js_member (stringify (manifest opts c)) ''content'') ident"
    using content_defined [of _ opts c]
    by (simp add: written_content stringify_props_keys)
next
  fix ident
  assume "has_key (js_member (stringify (manifest opts c)) ''content'') ident"
  then have "ident \<in> fst ` set (manifest_content opts c)"
    using content_defined [of _ opts c]
    by (simp add: written_content stringify_props_keys)
  then obtain d where d: "map_of (manifest_content opts c) ident = Some d"
    by (metis domD dom_map_of_conv_image_fst)
  then have "Some (ident, d) \<in> set (map (manifest_item opts) (orderedModules c))"
    using collect_items_map_of [of "map (manifest_item opts) (orderedModules c)" "[]" ident d]
    by (simp add: manifest_content_def)
  then obtain m where m: "m \<in> set (orderedModules c)" and it: "manifest_item opts m = Some (ident, d)"
    by auto
  have "written_entry opts c ident = stringify d"
    using d content_defined [of _ opts c]
    by (simp add: written_entry_def written_content stringify_props_map_of)
  then have "written_entry opts c ident =
               JObj ((if moduleId m = JUndefined then [] else [(''id'', stringify (moduleId m))])
                     @ (if buildMeta m = JUndefined then []
                        else [(''buildMeta'', stringify (buildMeta m))])
                     @ (if isArray (providedExports m)
                        then [(''exports'', stringify (providedExports m))] else []))"
    using manifest_item_data [OF it] by (cases "providedExports m") simp_all
  then show "\<exists>m \<in> set (orderedModules c).
           libIdent m = Some ident
           \<and> written_entry opts c ident =
               JObj ((if moduleId m = JUndefined then [] else [(''id'', stringify (moduleId m))])
                     @ (if buildMeta m = JUndefined then []
                        else [(''buildMeta'', stringify (buildMeta m))])
                     @ (if isArray (providedExports m)
                        then [(''exports'', stringify (providedExports m))] else []))"
    using m manifest_item_data [OF it] by blast
qed

theorem manifest_entries_witness:
  "manifest_item
      \<lparr>opt_name = Some ''lib'', opt_type = JStr ''var'', opt_entryOnly = True, opt_format = False\<rparr>
      \<lparr>moduleId = JNum 1, buildMeta = JObj [(''exportsType'', JStr ''namespace'')],
       libIdent = Some ''./a.js'', providedExports = JArr [JStr ''x'', JStr ''y''],
       incoming_entry = [False, True]\<rparr>
     = Some (''./a.js'',
             JObj [(''id'', JNum 1), (''buildMeta'', JObj [(''exportsType'', JStr ''namespace'')]),
                   (''exports'', JArr [JStr ''x'', JStr ''y''])])
   \<and> has_key
        (js_member
           (stringify
              (manifest
                 \<lparr>opt_name = Some ''lib'', opt_type = JStr ''var'', opt_entryOnly = True,
                  opt_format = False\<rparr>
                 \<lparr>isOnlyInitial = True,
                  orderedModules =
                    [\<lparr>moduleId = JNum 1, buildMeta = JObj [(''exportsType'', JStr ''namespace'')],
                      libIdent = Some ''./a.js'', providedExports = JArr [JStr ''x'', JStr ''y''],
                      incoming_entry = [False, True]\<rparr>,
                     \<lparr>moduleId = JNum 2, buildMeta = JObj [],
                      libIdent = Some ''./b.js'', providedExports = JBool True,
                      incoming_entry = [True]\<rparr>],
                  targetPath = ''dist/manifest.json'', namePath = ''lib''\<rparr>))
           ''content'')
        ''./a.js''
   \<and> written_entry
        \<lparr>opt_name = Some ''lib'', opt_type = JStr ''var'', opt_entryOnly = True,
         opt_format = False\<rparr>
        \<lparr>isOnlyInitial = True,
         orderedModules =
           [\<lparr>moduleId = JNum 1, buildMeta = JObj [(''exportsType'', JStr ''namespace'')],
             libIdent = Some ''./a.js'', providedExports = JArr [JStr ''x'', JStr ''y''],
             incoming_entry = [False, True]\<rparr>,
            \<lparr>moduleId = JNum 2, buildMeta = JObj [],
             libIdent = Some ''./b.js'', providedExports = JBool True,
             incoming_entry = [True]\<rparr>],
         targetPath = ''dist/manifest.json'', namePath = ''lib''\<rparr>
        ''./a.js''
      = JObj [(''id'', JNum 1), (''buildMeta'', JObj [(''exportsType'', JStr ''namespace'')]),
              (''exports'', JArr [JStr ''x'', JStr ''y''])]
   \<and> written_entry
        \<lparr>opt_name = Some ''lib'', opt_type = JStr ''var'', opt_entryOnly = True,
         opt_format = False\<rparr>
        \<lparr>isOnlyInitial = True,
         orderedModules =
           [\<lparr>moduleId = JNum 1, buildMeta = JObj [(''exportsType'', JStr ''namespace'')],
             libIdent = Some ''./a.js'', providedExports = JArr [JStr ''x'', JStr ''y''],
             incoming_entry = [False, True]\<rparr>,
            \<lparr>moduleId = JNum 2, buildMeta = JObj [],
             libIdent = Some ''./b.js'', providedExports = JBool True,
             incoming_entry = [True]\<rparr>],
         targetPath = ''dist/manifest.json'', namePath = ''lib''\<rparr>
        ''./b.js''
      = JObj [(''id'', JNum 2), (''buildMeta'', JObj [])]"
  using manifest_entries
    [of "\<lparr>isOnlyInitial = True,
         orderedModules =
           [\<lparr>moduleId = JNum 1, buildMeta = JObj [(''exportsType'', JStr ''namespace'')],
             libIdent = Some ''./a.js'', providedExports = JArr [JStr ''x'', JStr ''y''],
             incoming_entry = [False, True]\<rparr>,
            \<lparr>moduleId = JNum 2, buildMeta = JObj [],
             libIdent = Some ''./b.js'', providedExports = JBool True,
             incoming_entry = [True]\<rparr>],
         targetPath = ''dist/manifest.json'', namePath = ''lib''\<rparr>"
        "\<lparr>opt_name = Some ''lib'', opt_type = JStr ''var'', opt_entryOnly = True,
         opt_format = False\<rparr>"]
  by (simp add: written_entry_def manifest_def manifest_content_def manifest_item_def
      js_assign_def is_array_index_def is_digit_def)

section \<open>Properties of the eval source-map footer\<close>

lemma add_stars_inj: "inj (add_stars filename i)"
  by (auto simp: inj_def add_stars_def dest: arg_cong [where f = length])

lemma free_name_exists:
  assumes "inj name"
  shows "\<exists>n \<le> length taken. name n \<notin> set taken"
proof (rule ccontr)
  assume "\<not> (\<exists>n \<le> length taken. name n \<notin> set taken)"
  then have "name ` {..length taken} \<subseteq> set taken" by auto
  then have "card (name ` {..length taken}) \<le> card (set taken)"
    by (simp add: card_mono)
  moreover have "inj_on name {..length taken}"
    using assms by (rule inj_on_subset) simp
  then have "card (name ` {..length taken}) = Suc (length taken)"
    by (simp add: card_image)
  moreover have "card (set taken) \<le> length taken" by (rule card_length)
  ultimately show False by simp
qed

lemma pick_found:
  assumes "inj name"
  shows "\<exists>m. List.find (\<lambda>n. name n \<notin> set taken) [0..<Suc (length taken)] = Some m
             \<and> name m \<notin> set taken \<and> (name 0 \<notin> set taken \<longrightarrow> m = 0)"
proof -
  obtain n where n: "n \<le> length taken" "name n \<notin> set taken"
    using free_name_exists [OF assms] by blast
  then have "n \<in> set [0..<Suc (length taken)]" by (simp del: upt_Suc)
  then have "List.find (\<lambda>n. name n \<notin> set taken) [0..<Suc (length taken)] \<noteq> None"
    using n(2) unfolding find_None_iff by blast
  then obtain m where m: "List.find (\<lambda>n. name n \<notin> set taken) [0..<Suc (length taken)] = Some m"
    by auto
  then obtain k where k: "k < length [0..<Suc (length taken)]"
      "name ([0..<Suc (length taken)] ! k) \<notin> set taken"
      "m = [0..<Suc (length taken)] ! k"
      "\<forall>j<k. \<not> name ([0..<Suc (length taken)] ! j) \<notin> set taken"
    unfolding find_Some_iff by blast
  have "m = 0" if "name 0 \<notin> set taken"
  proof (rule ccontr)
    assume "m \<noteq> 0"
    then have "0 < k" using k(1,3) by (cases k) (simp_all del: upt_Suc)
    then have "\<not> name ([0..<Suc (length taken)] ! 0) \<notin> set taken" using k(4) by blast
    moreover have "[0..<Suc (length taken)] ! 0 = 0" by (simp add: nth_append del: upt_Suc)
    ultimately show False using that by simp
  qed
  moreover have "name m \<notin> set taken" using k(2,3) by simp
  ultimately show ?thesis using m by (intro exI [of _ m]) simp
qed

lemma pick_free:
  assumes "inj name"
  shows "pick name taken \<notin> set taken"
  using pick_found [OF assms, of taken] by (auto simp: pick_def)

lemma pick_named:
  "\<exists>n. pick name taken = name n"
  by (auto simp: pick_def split: option.splits)

lemma pick_first:
  assumes "inj name" "name 0 \<notin> set taken"
  shows "pick name taken = name 0"
  using pick_found [OF assms(1), of taken] assms(2) by (auto simp: pick_def)

lemma dedup_length: "length (dedup fn out i xs) = length xs"
  by (induction xs arbitrary: out i) (simp_all add: Let_def)

lemma dedup_shape:
  "k < length xs \<Longrightarrow> \<exists>n. dedup add_stars out i xs ! k = xs ! k @ replicate n (CHR ''*'')"
proof (induction xs arbitrary: out i k)
  case Nil
  then show ?case by simp
next
  case (Cons item rest)
  show ?case
  proof (cases k)
    case 0
    obtain n where "pick (add_stars item i) (out @ filter (\<lambda>x. x \<noteq> item) rest) = add_stars item i n"
      using pick_named by blast
    then have "dedup add_stars out i (item # rest) ! 0 = add_stars item i n"
      by (simp add: Let_def)
    then have "dedup add_stars out i (item # rest) ! k = (item # rest) ! k @ replicate n (CHR ''*'')"
      using 0 by (simp add: add_stars_def)
    then show ?thesis by blast
  next
    case (Suc k')
    then show ?thesis using Cons by (simp add: Let_def)
  qed
qed

lemma dedup_distinct:
  "distinct (dedup add_stars out i xs) \<and> set (dedup add_stars out i xs) \<inter> set out = {}"
proof (induction xs arbitrary: out i)
  case Nil
  then show ?case by simp
next
  case (Cons item rest)
  define r where "r = pick (add_stars item i) (out @ filter (\<lambda>x. x \<noteq> item) rest)"
  have r: "r \<notin> set out"
    using pick_free [OF add_stars_inj, of item i "out @ filter (\<lambda>x. x \<noteq> item) rest"]
    by (simp add: r_def)
  have IH: "distinct (dedup add_stars (out @ [r]) (Suc i) rest)
            \<and> set (dedup add_stars (out @ [r]) (Suc i) rest) \<inter> set (out @ [r]) = {}"
    by (rule Cons.IH)
  have "dedup add_stars out i (item # rest) = r # dedup add_stars (out @ [r]) (Suc i) rest"
    by (simp add: r_def Let_def)
  then show ?case using r IH by auto
qed

lemma dedup_keeps:
  "k < length xs \<Longrightarrow> set out \<inter> set xs \<subseteq> B \<Longrightarrow> xs ! k \<notin> B \<Longrightarrow>
   (\<forall>j<k. xs ! j \<noteq> xs ! k) \<Longrightarrow> dedup add_stars out i xs ! k = xs ! k"
proof (induction xs arbitrary: out i k B)
  case Nil
  then show ?case by simp
next
  case (Cons item rest)
  define r where "r = pick (add_stars item i) (out @ filter (\<lambda>x. x \<noteq> item) rest)"
  have unfold: "dedup add_stars out i (item # rest) = r # dedup add_stars (out @ [r]) (Suc i) rest"
    by (simp add: r_def Let_def)
  show ?case
  proof (cases k)
    case 0
    then have "item \<notin> B" using Cons.prems(3) by simp
    then have "item \<notin> set out" using Cons.prems(2) by auto
    then have "add_stars item i 0 \<notin> set (out @ filter (\<lambda>x. x \<noteq> item) rest)"
      by (simp add: add_stars_def)
    then have "r = add_stars item i 0"
      unfolding r_def using add_stars_inj by (rule pick_first [rotated])
    then have "r = item" by (simp add: add_stars_def)
    then show ?thesis using 0 by (simp only: unfold nth_Cons_0)
  next
    case (Suc k')
    have a: "k' < length rest" using Cons.prems(1) Suc by simp
    have "r \<notin> set (filter (\<lambda>x. x \<noteq> item) rest)"
      using pick_free [OF add_stars_inj, of item i "out @ filter (\<lambda>x. x \<noteq> item) rest"]
      by (simp add: r_def)
    then have b: "set (out @ [r]) \<inter> set rest \<subseteq> insert item B"
      using Cons.prems(2) by auto
    have "(item # rest) ! 0 \<noteq> (item # rest) ! k" using Cons.prems(4) Suc by blast
    then have c: "rest ! k' \<notin> insert item B" using Cons.prems(3) Suc by auto
    have d: "\<forall>j<k'. rest ! j \<noteq> rest ! k'"
    proof (intro allI impI)
      fix j assume "j < k'"
      then have "Suc j < k" using Suc by simp
      then have "(item # rest) ! Suc j \<noteq> (item # rest) ! k" using Cons.prems(4) by blast
      then show "rest ! j \<noteq> rest ! k'" using Suc by simp
    qed
    show ?thesis using Cons.IH [OF a b c d] unfold Suc by simp
  qed
qed

lemma replace_url_none: "\<not> has_url s \<Longrightarrow> replace_url r s = s"
  by (induction s) auto

lemma no_match_across:
  assumes "\<not> prefix ''[url]'' (c # a)"
  shows "\<not> prefix ''[url]'' (c # a @ ''[url]'' @ b)"
proof (cases a)
  case Nil
  then show ?thesis by simp
next
  case A: (Cons x a1)
  show ?thesis
  proof (cases a1)
    case Nil
    then show ?thesis using A by simp
  next
    case B: (Cons y a2)
    show ?thesis
    proof (cases a2)
      case Nil
      then show ?thesis using A B by simp
    next
      case C: (Cons z a3)
      show ?thesis
      proof (cases a3)
        case Nil
        then show ?thesis using A B C by simp
      next
        case (Cons w a4)
        then show ?thesis using A B C assms by simp
      qed
    qed
  qed
qed

lemma replace_url_segment:
  "\<not> has_url a \<Longrightarrow> replace_url r (a @ ''[url]'' @ b) = a @ r @ replace_url r b"
proof (induction a)
  case Nil
  then show ?case by simp
next
  case (Cons c a)
  then have n: "\<not> prefix ''[url]'' (c # a)" and h: "\<not> has_url a" by simp_all
  have np: "\<not> prefix ''[url]'' (c # a @ ''[url]'' @ b)"
    using n by (rule no_match_across)
  have "replace_url r (c # a @ ''[url]'' @ b) = c # replace_url r (a @ ''[url]'' @ b)"
    by (subst replace_url.simps(2)) (simp only: np if_False)
  then show ?case using Cons.IH [OF h] by simp
qed

lemma replace_url_join:
  "segs \<noteq> [] \<Longrightarrow> \<forall>seg \<in> set segs. \<not> has_url seg \<Longrightarrow>
   replace_url r (join ''[url]'' segs) = join r segs"
proof (induction "''[url]''" segs rule: join.induct)
  case 1
  then show ?case by simp
next
  case (2 seg)
  then show ?case by (simp add: replace_url_none)
next
  case (3 seg v va)
  then show ?case using replace_url_segment [of seg r "join ''[url]'' (v # va)"] by simp
qed

lemma b64_char_in_alphabet:
  "n < 64 \<Longrightarrow> b64_char n \<noteq> CHR ''$'' \<and> b64_char n \<noteq> CHR ''[''"
proof -
  assume "n < 64"
  then have "b64_char n \<in> set ''ABCDEFGHIJKLMNOPQRSTUVWXYZabcdefghijklmnopqrstuvwxyz0123456789+/''"
    unfolding b64_char_def by (intro nth_mem) simp
  then show ?thesis by auto
qed

lemma base64_bytes_chars:
  "\<forall>b \<in> set bs. b < 256 \<Longrightarrow> CHR ''$'' \<notin> set (base64_bytes bs) \<and> CHR ''['' \<notin> set (base64_bytes bs)"
proof (induction bs rule: base64_bytes.induct)
  case 1
  then show ?case by simp
next
  case (2 a)
  then have "a div 4 < 64" "(a mod 4) * 16 < 64" by simp_all
  then show ?case using b64_char_in_alphabet by (simp; metis)
next
  case (3 a b)
  then have "a div 4 < 64" "(a mod 4) * 16 + b div 16 < 64" "(b mod 16) * 4 < 64"
    by simp_all arith+
  then show ?case using b64_char_in_alphabet by (simp; metis)
next
  case (4 a b c rest)
  then have "a div 4 < 64" "(a mod 4) * 16 + b div 16 < 64" "(b mod 16) * 4 + c div 64 < 64"
    "c mod 64 < 64"
    by simp_all arith+
  then show ?case using b64_char_in_alphabet 4 by (simp; metis)
qed

lemma data_uri_plain:
  "CHR ''$'' \<notin> set (data_uri json) \<and> CHR ''['' \<notin> set (data_uri json)"
  using base64_bytes_chars [of "map of_char json"]
  by (simp add: data_uri_def base64_def)

text \<open>
  Claim C8, against \<^verbatim>\<open>replaceDuplicates\<close> as modelled from the spec. The new
  \<^verbatim>\<open>sources\<close> list has the length of the old one; each entry is the name computed for
  the source followed by marker characters \<^verbatim>\<open>*\<close>; an entry whose name is computed for no
  earlier source is that name unchanged, so only otherwise-identical names get markers;
  and no two entries of the new list are equal. For a comment cut at its \<^verbatim>\<open>[url]\<close>
  placeholders, the footer is the pieces put together around the data URI, followed by
  the \<^verbatim>\<open>sourceURL\<close> line of the module id; the data URI is the fixed prefix and the
  base64 text of the JSON, and holds no \<^verbatim>\<open>$\<close>.
\<close>

theorem source_names_and_footer:
  "length (moduleFilenames findModule createFilename sources) = length sources
   \<and> (\<forall>i < length sources. \<exists>n.
         moduleFilenames findModule createFilename sources ! i
           = module_names findModule createFilename sources ! i @ replicate n (CHR ''*''))
   \<and> (\<forall>i < length sources.
         (\<forall>j < i. module_names findModule createFilename sources ! j
                    \<noteq> module_names findModule createFilename sources ! i) \<longrightarrow>
         moduleFilenames findModule createFilename sources ! i
           = module_names findModule createFilename sources ! i)
   \<and> distinct (moduleFilenames findModule createFilename sources)
   \<and> (segs \<noteq> [] \<and> (\<forall>seg \<in> set segs. \<not> has_url seg) \<longrightarrow>
        footer (join ''[url]'' segs) json id_text
          = join (data_uri json) segs @ [CHR ''\<newline>'']
              @ ''//# sourceURL=webpack-internal:///'' @ id_text @ [CHR ''\<newline>''])
   \<and> data_uri json = ''data:application/json;charset=utf-8;base64,'' @ base64 json
   \<and> CHR ''$'' \<notin> set (data_uri json)"
proof (intro conjI allI impI)
  let ?names = "module_names findModule createFilename sources"
  have len: "length ?names = length sources" by (simp add: module_names_def)
  show "length (moduleFilenames findModule createFilename sources) = length sources"
    by (simp add: moduleFilenames_def replaceDuplicates_def dedup_length len)
  show "\<exists>n. moduleFilenames findModule createFilename sources ! i
           = ?names ! i @ replicate n (CHR ''*'')"
    if "i < length sources" for i
    using that len dedup_shape [of i ?names "[]" 0]
    by (simp add: moduleFilenames_def replaceDuplicates_def)
  show "moduleFilenames findModule createFilename sources ! i = ?names ! i"
    if "i < length sources" and "\<forall>j < i. ?names ! j \<noteq> ?names ! i" for i
    using that len dedup_keeps [of i ?names "[]" "{}" 0]
    by (simp add: moduleFilenames_def replaceDuplicates_def)
  show "distinct (moduleFilenames findModule createFilename sources)"
    using dedup_distinct [of "[]" 0 ?names]
    by (simp add: moduleFilenames_def replaceDuplicates_def)
  show "footer (join ''[url]'' segs) json id_text
          = join (data_uri json) segs @ [CHR ''\<newline>'']
              @ ''//# sourceURL=webpack-internal:///'' @ id_text @ [CHR ''\<newline>'']"
    if "segs \<noteq> [] \<and> (\<forall>seg \<in> set segs. \<not> has_url seg)"
    using that by (simp add: footer_def replace_url_join)
  show "data_uri json = ''data:application/json;charset=utf-8;base64,'' @ base64 json"
    by (simp add: data_uri_def)
  show "CHR ''$'' \<notin> set (data_uri json)"
    using data_uri_plain by simp
qed

theorem source_names_and_footer_witness:
  "module_names (\<lambda>source. None :: string option) (\<lambda>m. case m of Inl x \<Rightarrow> x | Inr x \<Rightarrow> x)
       [''a'', ''b'', ''a''] = [''a'', ''b'', ''a'']
   \<and> moduleFilenames (\<lambda>source. None :: string option) (\<lambda>m. case m of Inl x \<Rightarrow> x | Inr x \<Rightarrow> x)
       [''a'', ''b'', ''a''] = [''a'', ''b'', ''a*'']
   \<and> moduleFilenames (\<lambda>source. None :: string option) (\<lambda>m. case m of Inl x \<Rightarrow> x | Inr x \<Rightarrow> x)
       [''a'', ''a'', ''a*''] = [''a'', ''a**'', ''a*'']
   \<and> distinct [''a'', ''a**'', ''a*'']
   \<and> [''//# sourceURL=[module]'' @ [CHR ''\<newline>''] @ ''//# sourceMappingURL='', []] \<noteq> []
   \<and> \<not> has_url (''//# sourceURL=[module]'' @ [CHR ''\<newline>''] @ ''//# sourceMappingURL='')
   \<and> \<not> has_url []
   \<and> sourceMapComment None
       = join ''[url]'' [''//# sourceURL=[module]'' @ [CHR ''\<newline>''] @ ''//# sourceMappingURL='', []]
   \<and> footer (sourceMapComment None) ''{}'' ''2''
       = ''//# sourceURL=[module]'' @ [CHR ''\<newline>'']
           @ ''//# sourceMappingURL=data:application/json;charset=utf-8;base64,e30=''
           @ [CHR ''\<newline>''] @ ''//# sourceURL=webpack-internal:///2'' @ [CHR ''\<newline>'']"
  using source_names_and_footer
    [of "\<lambda>source. None :: string option" "\<lambda>m. case m of Inl x \<Rightarrow> x | Inr x \<Rightarrow> x"
        "[''a'', ''b'', ''a'']"
        "[''//# sourceURL=[module]'' @ [CHR ''\<newline>''] @ ''//# sourceMappingURL='', []]"
        "''{}''" "''2''"]
    source_names_and_footer
    [of "\<lambda>source. None :: string option" "\<lambda>m. case m of Inl x \<Rightarrow> x | Inr x \<Rightarrow> x"
        "[''a'', ''a'', ''a*'']" "[[]]" "[]" "[]"]
  by (simp add: module_names_def moduleFilenames_def replaceDuplicates_def add_stars_def Let_def
        pick_def sourceMapComment_def data_uri_def base64_def b64_char_def)



section \<open>Properties of the module decorators\<close>

lemma lookup_no_proto:
  "a < length h \<Longrightarrow> proto (h ! a) = None \<Longrightarrow> lookup h a k = map_of (props (h ! a)) k"
  by (cases "length h") (auto simp: lookup_def split: option.splits)

lemma lookup_one_proto:
  assumes "d < length h" "proto (h ! d) = Some a" "a < length h" "a \<noteq> d" "proto (h ! a) = None"
  shows "lookup h d k =
           (case map_of (props (h ! d)) k of Some p \<Rightarrow> Some p | None \<Rightarrow> map_of (props (h ! a)) k)"
proof -
  obtain n where n: "length h = Suc (Suc n)"
    using assms(1,3,4) by (cases "length h"; cases "length h - 1") auto
  show ?thesis using assms
    by (auto simp: lookup_def n split: option.splits)
qed

lemma get_plain:
  "lookup h a k = None \<Longrightarrow> get h a k = Inr VUndefined"
  "lookup h a k = Some (Data v w e c) \<Longrightarrow> get h a k = Inr v"
  by (simp_all add: get_def)

lemma get_through_getter:
  assumes "lookup h a k = Some (Accessor (ReturnProp b k') e c)"
    and "lookup h b k' = Some (Data v w e' c')"
    and "x < length h" "props (h ! x) \<noteq> []"
  shows "get h a k = Inr v"
proof -
  have "h ! x \<in> set h" using assms(3) by simp
  then have "0 < length (concat (map props h))"
    using assms(4) by auto
  then obtain n where "length (concat (map props h)) = Suc n"
    by (cases "length (concat (map props h))") auto
  then show ?thesis using assms(1,2) by (simp add: get_def)
qed

lemma node_result:
  assumes "a < length h" "h ! a = module_object i l ex"
  shows "nodeModuleDecorator a h =
           Inr (a, h[a := \<lparr>proto = None,
                           props = [(''i'', Data i True True True),
                                    (''l'', Data l True True True),
                                    (''exports'', Data ex True True True),
                                    (''paths'', Data (VArr []) True True True),
                                    (''children'', Data (VArr []) True True True),
                                    (''loaded'', Accessor (ReturnProp a ''l'') True False),
                                    (''id'', Accessor (ReturnProp a ''i'') True False)]\<rparr>])"
  using assms
  by (simp add: nodeModuleDecorator_def and_then_def put_def init_children_def
        define_getter_def set_own_def lookup_no_proto get_plain module_object_def)

lemma harmony_result:
  assumes "a < length h" "h ! a = module_object i l ex"
  shows "harmonyModuleDecorator a h =
           Inr (length h,
                h @ [\<lparr>proto = Some a,
                       props = [(''children'', Data (VArr []) True True True),
                                (''loaded'', Accessor (ReturnProp (length h) ''l'') True False),
                                (''id'', Accessor (ReturnProp (length h) ''i'') True False),
                                (''exports'', Data VUndefined False True False)]\<rparr>])"
proof -
  let ?h0 = "h @ [\<lparr>proto = Some a, props = []\<rparr>]"
  have l0: "lookup ?h0 (length h) ''children'' = None"
    using assms
    by (subst lookup_one_proto [where a = a]) (simp_all add: nth_append module_object_def)
  have c: "init_children (length h) ?h0
             = Inr (h @ [\<lparr>proto = Some a,
                           props = [(''children'', Data (VArr []) True True True)]\<rparr>])"
    using l0 by (simp add: init_children_def and_then_def get_plain put_def set_own_def)
  show ?thesis
    using assms c
    by (simp add: harmonyModuleDecorator_def Let_def and_then_def define_getter_def
          define_enumerable_def set_own_def)
qed

text \<open>
  Claim C4 as stated fails: the harmony decorator leaves the export object of the module
  (here the empty object at address 1) as it was. What it adds is an \<^verbatim>\<open>exports\<close>
  property without value on the new object it returns.
\<close>

theorem harmony_decorator_leaves_exports_unmarked:
  "harmonyModuleDecorator 0
     [module_object (VNum 1) (VBool False) (VRef 1), \<lparr>proto = None, props = []\<rparr>]
   = Inr (2, [module_object (VNum 1) (VBool False) (VRef 1),
              \<lparr>proto = None, props = []\<rparr>,
              \<lparr>proto = Some 0,
               props = [(''children'', Data (VArr []) True True True),
                        (''loaded'', Accessor (ReturnProp 2 ''l'') True False),
                        (''id'', Accessor (ReturnProp 2 ''i'') True False),
                        (''exports'', Data VUndefined False True False)]\<rparr>])"
  using harmony_result
    [of 0 "[module_object (VNum 1) (VBool False) (VRef 1), \<lparr>proto = None, props = []\<rparr>]"
        "VNum 1" "VBool False" "VRef 1"]
  by simp

text \<open>
  Claim C4, as amended. Let the heap hold at \<open>a\<close> a module object as
  \<^verbatim>\<open>__webpack_require__\<close> makes it, with id \<open>i\<close>, load state \<open>l\<close> and exports
  \<open>ex\<close>. The node decorator returns that object; the harmony decorator returns a new
  object whose prototype it is, and changes no object that was there. On the returned
  object \<^verbatim>\<open>loaded\<close> reads \<open>l\<close> (and what is stored in \<^verbatim>\<open>l\<close> later) and \<^verbatim>\<open>id\<close>
  reads \<open>i\<close>, and assigning to either throws. After the node decorator \<^verbatim>\<open>exports\<close>
  still reads \<open>ex\<close>; after the harmony decorator \<^verbatim>\<open>exports\<close> of the returned object
  reads \<^verbatim>\<open>undefined\<close> and assigning to it throws. The harmony decorator is the one
  chosen exactly when \<^verbatim>\<open>buildMeta.exportsType\<close> is truthy.
\<close>

theorem decorators_expose_load_state_and_id:
  "(a < length h \<and> h ! a = module_object i l ex \<longrightarrow>
      (\<exists>h'. nodeModuleDecorator a h = Inr (a, h')
         \<and> get h' a ''loaded'' = Inr l \<and> get h' a ''id'' = Inr i
         \<and> put h' a ''loaded'' v = Inl TypeError \<and> put h' a ''id'' v = Inl TypeError
         \<and> (\<exists>h''. put h' a ''l'' l' = Inr h'' \<and> get h'' a ''loaded'' = Inr l')
         \<and> get h' a ''exports'' = Inr ex)
      \<and> (\<exists>h'. harmonyModuleDecorator a h = Inr (length h, h')
         \<and> take (length h) h' = h
         \<and> get h' (length h) ''loaded'' = Inr l \<and> get h' (length h) ''id'' = Inr i
         \<and> put h' (length h) ''loaded'' v = Inl TypeError
         \<and> put h' (length h) ''id'' v = Inl TypeError
         \<and> (\<exists>h''. put h' a ''l'' l' = Inr h'' \<and> get h'' (length h) ''loaded'' = Inr l')
         \<and> get h' (length h) ''exports'' = Inr VUndefined
         \<and> put h' (length h) ''exports'' v = Inl TypeError))
   \<and> decorator (module_expression bm)
       = (if js_truthy (js_member bm ''exportsType'') then harmonyModuleDecorator
          else nodeModuleDecorator)"
proof (intro conjI impI)
  assume A: "a < length h \<and> h ! a = module_object i l ex"
  then have a: "a < length h" and m: "h ! a = module_object i l ex" by simp_all
  let ?o = "\<lparr>proto = None,
            props = [(''i'', Data i True True True), (''l'', Data l True True True),
                     (''exports'', Data ex True True True),
                     (''paths'', Data (VArr []) True True True),
                     (''children'', Data (VArr []) True True True),
                     (''loaded'', Accessor (ReturnProp a ''l'') True False),
                     (''id'', Accessor (ReturnProp a ''i'') True False)]\<rparr>"
  let ?h = "h[a := ?o]"
  have lk: "lookup ?h a k = map_of (props ?o) k" for k
    using a by (simp add: lookup_no_proto)
  have g1: "get ?h a ''loaded'' = Inr l"
    by (rule get_through_getter [where x = a and b = a and k' = "''l''" and e = True
             and c = False and w = True and e' = True and c' = True])
       (use a in \<open>simp_all add: lk\<close>)
  have g2: "get ?h a ''id'' = Inr i"
    by (rule get_through_getter [where x = a and b = a and k' = "''i''" and e = True
             and c = False and w = True and e' = True and c' = True])
       (use a in \<open>simp_all add: lk\<close>)
  have g3: "get ?h a ''exports'' = Inr ex"
    by (rule get_plain(2) [where w = True and e = True and c = True]) (simp add: lk)
  have p: "put ?h a ''loaded'' v = Inl TypeError" "put ?h a ''id'' v = Inl TypeError"
    using a by (simp_all add: put_def lk)
  let ?o' = "\<lparr>proto = None,
            props = [(''i'', Data i True True True), (''l'', Data l' True True True),
                     (''exports'', Data ex True True True),
                     (''paths'', Data (VArr []) True True True),
                     (''children'', Data (VArr []) True True True),
                     (''loaded'', Accessor (ReturnProp a ''l'') True False),
                     (''id'', Accessor (ReturnProp a ''i'') True False)]\<rparr>"
  have pl: "put ?h a ''l'' l' = Inr (h[a := ?o'])"
    using a by (simp add: put_def lk set_own_def)
  have lk': "lookup (h[a := ?o']) a k = map_of (props ?o') k" for k
    using a by (simp add: lookup_no_proto)
  have gl: "get (h[a := ?o']) a ''loaded'' = Inr l'"
    by (rule get_through_getter [where x = a and b = a and k' = "''l''" and e = True
             and c = False and w = True and e' = True and c' = True])
       (use a in \<open>simp_all add: lk'\<close>)
  show "\<exists>h'. nodeModuleDecorator a h = Inr (a, h')
         \<and> get h' a ''loaded'' = Inr l \<and> get h' a ''id'' = Inr i
         \<and> put h' a ''loaded'' v = Inl TypeError \<and> put h' a ''id'' v = Inl TypeError
         \<and> (\<exists>h''. put h' a ''l'' l' = Inr h'' \<and> get h'' a ''loaded'' = Inr l')
         \<and> get h' a ''exports'' = Inr ex"
    using node_result [OF a m] g1 g2 g3 p pl gl by simp
next
  assume A: "a < length h \<and> h ! a = module_object i l ex"
  then have a: "a < length h" and m: "h ! a = module_object i l ex" by simp_all
  let ?d = "\<lparr>proto = Some a,
            props = [(''children'', Data (VArr []) True True True),
                     (''loaded'', Accessor (ReturnProp (length h) ''l'') True False),
                     (''id'', Accessor (ReturnProp (length h) ''i'') True False),
                     (''exports'', Data VUndefined False True False)]\<rparr>"
  let ?h = "h @ [?d]"
  have lk: "lookup ?h (length h) k =
              (case map_of (props ?d) k of Some p \<Rightarrow> Some p
               | None \<Rightarrow> map_of (props (module_object i l ex)) k)" for k
    using a m by (subst lookup_one_proto [where a = a]) (simp_all add: nth_append module_object_def)
  have g1: "get ?h (length h) ''loaded'' = Inr l"
    by (rule get_through_getter [where x = "length h" and b = "length h" and k' = "''l''" and e = True
             and c = False and w = True and e' = True and c' = True])
       (simp_all add: lk module_object_def)
  have g2: "get ?h (length h) ''id'' = Inr i"
    by (rule get_through_getter [where x = "length h" and b = "length h" and k' = "''i''" and e = True
             and c = False and w = True and e' = True and c' = True])
       (simp_all add: lk module_object_def)
  have g3: "get ?h (length h) ''exports'' = Inr VUndefined"
    by (rule get_plain(2) [where w = False and e = True and c = False]) (simp add: lk)
  have p: "put ?h (length h) ''loaded'' v = Inl TypeError"
    "put ?h (length h) ''id'' v = Inl TypeError"
    "put ?h (length h) ''exports'' v = Inl TypeError"
    by (simp_all add: put_def lk)
  let ?m' = "\<lparr>proto = None,
            props = [(''i'', Data i True True True), (''l'', Data l' True True True),
                     (''exports'', Data ex True True True)]\<rparr>"
  have lka: "lookup ?h a ''l'' = Some (Data l True True True)"
    using a m by (simp add: lookup_no_proto nth_append module_object_def)
  have pl: "put ?h a ''l'' l' = Inr (h[a := ?m'] @ [?d])"
    using a m by (simp add: put_def lka set_own_def nth_append module_object_def list_update_append)
  have lk': "lookup (h[a := ?m'] @ [?d]) (length h) k =
              (case map_of (props ?d) k of Some p \<Rightarrow> Some p | None \<Rightarrow> map_of (props ?m') k)" for k
    using a by (subst lookup_one_proto [where a = a]) (simp_all add: nth_append)
  have gl: "get (h[a := ?m'] @ [?d]) (length h) ''loaded'' = Inr l'"
    by (rule get_through_getter [where x = "length h" and b = "length h" and k' = "''l''" and e = True
             and c = False and w = True and e' = True and c' = True])
       (simp_all add: lk' nth_append)
  show "\<exists>h'. harmonyModuleDecorator a h = Inr (length h, h')
         \<and> take (length h) h' = h
         \<and> get h' (length h) ''loaded'' = Inr l \<and> get h' (length h) ''id'' = Inr i
         \<and> put h' (length h) ''loaded'' v = Inl TypeError
         \<and> put h' (length h) ''id'' v = Inl TypeError
         \<and> (\<exists>h''. put h' a ''l'' l' = Inr h'' \<and> get h'' (length h) ''loaded'' = Inr l')
         \<and> get h' (length h) ''exports'' = Inr VUndefined
         \<and> put h' (length h) ''exports'' v = Inl TypeError"
    using harmony_result [OF a m] g1 g2 g3 p pl gl by simp
next
  show "decorator (module_expression bm)
       = (if js_truthy (js_member bm ''exportsType'') then harmonyModuleDecorator
          else nodeModuleDecorator)"
    by (cases bm) (simp_all add: module_expression_def Let_def)
qed

theorem decorators_expose_load_state_and_id_witness:
  "0 < length [module_object (VNum 1) (VBool False) (VRef 1), \<lparr>proto = None, props = []\<rparr>]
   \<and> [module_object (VNum 1) (VBool False) (VRef 1), \<lparr>proto = None, props = []\<rparr>] ! 0
       = module_object (VNum 1) (VBool False) (VRef 1)
   \<and> (\<exists>h'. nodeModuleDecorator 0
               [module_object (VNum 1) (VBool False) (VRef 1), \<lparr>proto = None, props = []\<rparr>]
             = Inr (0, h')
          \<and> get h' 0 ''loaded'' = Inr (VBool False) \<and> get h' 0 ''id'' = Inr (VNum 1)
          \<and> put h' 0 ''id'' (VNum 5) = Inl TypeError
          \<and> get h' 0 ''exports'' = Inr (VRef 1))
   \<and> (\<exists>h'. harmonyModuleDecorator 0
               [module_object (VNum 1) (VBool False) (VRef 1), \<lparr>proto = None, props = []\<rparr>]
             = Inr (2, h')
          \<and> get h' 2 ''loaded'' = Inr (VBool False) \<and> get h' 2 ''id'' = Inr (VNum 1)
          \<and> put h' 2 ''loaded'' (VNum 5) = Inl TypeError
          \<and> get h' 2 ''exports'' = Inr VUndefined)
   \<and> decorator (module_expression (JObj [(''exportsType'', JStr ''namespace'')]))
       = harmonyModuleDecorator
   \<and> decorator (module_expression (JObj [])) = nodeModuleDecorator"
  using decorators_expose_load_state_and_id
    [of 0 "[module_object (VNum 1) (VBool False) (VRef 1), \<lparr>proto = None, props = []\<rparr>]"
        "VNum 1" "VBool False" "VRef 1" "VNum 5" "VBool True"
        "JObj [(''exportsType'', JStr ''namespace'')]"]
    decorators_expose_load_state_and_id
    [of 0 "[module_object (VNum 1) (VBool False) (VRef 1), \<lparr>proto = None, props = []\<rparr>]"
        "VNum 1" "VBool False" "VRef 1" "VNum 5" "VBool True" "JObj []"]
  by (auto simp: numeral_2_eq_2)

end
